theory Spec2Isabelle
  imports Complex_Main
begin

section \<open>Python values decoded from JSON\<close>

text \<open>
  \<^verbatim>\<open>req.get_json()\<close> and \<^verbatim>\<open>response.json()\<close> return what \<^verbatim>\<open>json.loads\<close> builds:
  \<^verbatim>\<open>None\<close>, \<^verbatim>\<open>bool\<close>, \<^verbatim>\<open>int\<close>, \<^verbatim>\<open>float\<close>, \<^verbatim>\<open>str\<close>, \<^verbatim>\<open>list\<close> and \<^verbatim>\<open>dict\<close> with string keys.
  A dict is an association list read with \<open>map_of\<close> (the first binding of a key is
  the dict's value for it).
\<close>

datatype pyfloat = Finite rat | Infinite bool | NaN

datatype json =
    JNull
  | JBool bool
  | JInt int
  | JFloat pyfloat
  | JStr string
  | JArr "json list"
  | JObj "(string \<times> json) list"

text \<open>The exceptions the function can meet; every one of them derives from \<^verbatim>\<open>Exception\<close>.\<close>

datatype exn =
    KeyError string
  | ValueError string
  | AttributeError string
  | TypeError string
  | IndexError
  | HTTPError int
  | RequestException string
  | DatabaseError string

text \<open>Python truthiness, as used by \<^verbatim>\<open>not x\<close> and \<^verbatim>\<open>if x\<close>.\<close>

fun truthy :: "json \<Rightarrow> bool" where
  "truthy JNull = False"
| "truthy (JBool b) = b"
| "truthy (JInt i) = (i \<noteq> 0)"
| "truthy (JFloat f) = (f \<noteq> Finite 0)"
| "truthy (JStr s) = (s \<noteq> [])"
| "truthy (JArr xs) = (xs \<noteq> [])"
| "truthy (JObj kvs) = (kvs \<noteq> [])"

text \<open>\<^verbatim>\<open>d.get(k)\<close> on a dict: the value, or \<^verbatim>\<open>None\<close> for a missing key.\<close>

definition dict_get :: "(string \<times> json) list \<Rightarrow> string \<Rightarrow> json" where
  "dict_get d k = (case map_of d k of None \<Rightarrow> JNull | Some v \<Rightarrow> v)"

text \<open>\<^verbatim>\<open>x.get(k)\<close> on any decoded value: only a dict has the attribute.\<close>

fun json_get :: "json \<Rightarrow> string \<Rightarrow> exn + json" where
  "json_get (JObj d) k = Inr (dict_get d k)"
| "json_get _ k = Inl (AttributeError ''get'')"

text \<open>\<^verbatim>\<open>x[0]\<close> on a decoded value.\<close>

fun getitem0 :: "json \<Rightarrow> exn + json" where
  "getitem0 (JArr []) = Inl IndexError"
| "getitem0 (JArr (x # xs)) = Inr x"
| "getitem0 (JStr []) = Inl IndexError"
| "getitem0 (JStr (c # cs)) = Inr (JStr [c])"
| "getitem0 (JObj d) = Inl (KeyError ''0'')"
| "getitem0 _ = Inl (TypeError ''not subscriptable'')"

text \<open>\<^verbatim>\<open>for entry in data\<close>: the elements a decoded value iterates over.\<close>

fun py_iter :: "json \<Rightarrow> exn + json list" where
  "py_iter (JArr xs) = Inr xs"
| "py_iter (JObj d) = Inr (map (\<lambda>kv. JStr (fst kv)) d)"
| "py_iter (JStr s) = Inr (map (\<lambda>c. JStr [c]) s)"
| "py_iter _ = Inl (TypeError ''not iterable'')"

section \<open>The row flattener (step 5 of \<^verbatim>\<open>ingest_toggl_data\<close>)\<close>

text \<open>
  The tuple appended to \<^verbatim>\<open>rows_to_insert\<close>, in the order of the insert statement's columns:
  toggl_time_entry_id, user_id, project_id, task_id, billable, description, start_time,
  stop_time, duration_seconds, updated_at.
\<close>

type_synonym staging_row =
  "json \<times> json \<times> json \<times> json \<times> json \<times> json \<times> json \<times> json \<times> json \<times> json"

text \<open>
  The body of the \<^verbatim>\<open>for entry in data\<close> loop: \<open>Inr None\<close> is \<^verbatim>\<open>continue\<close>, \<open>Inr (Some row)\<close>
  is the appended row, \<open>Inl\<close> an exception. \<open>is_billable\<close> is computed as in the source and,
  as in the source, the tuple takes \<^verbatim>\<open>entry.get('billable')\<close>.
\<close>

fun flatten_entry :: "json \<Rightarrow> exn + staging_row option" where
  "flatten_entry (JObj entry) =
     (if \<not> truthy (dict_get entry ''time_entries'') then Inr None
      else
        (case getitem0 (dict_get entry ''time_entries'') of
           Inl e \<Rightarrow> Inl e
         | Inr details \<Rightarrow>
             (let is_billable = (if truthy (dict_get entry ''billable'') then JInt 1 else JInt 0)
              in (case details of
                    JObj d \<Rightarrow>
                      Inr (Some (dict_get d ''id'',
                                 dict_get entry ''user_id'',
                                 dict_get entry ''project_id'',
                                 dict_get entry ''task_id'',
                                 dict_get entry ''billable'',
                                 dict_get entry ''description'',
                                 dict_get d ''start'',
                                 dict_get d ''stop'',
                                 dict_get d ''seconds'',
                                 dict_get d ''at''))
                  | _ \<Rightarrow> Inl (AttributeError ''get'')))))"
| "flatten_entry _ = Inl (AttributeError ''get'')"

text \<open>The whole \<^verbatim>\<open>for\<close> loop over the entries, with \<^verbatim>\<open>rows_to_insert\<close> as accumulator.\<close>

fun flatten_entries :: "json list \<Rightarrow> staging_row list \<Rightarrow> exn + staging_row list" where
  "flatten_entries [] rows_to_insert = Inr rows_to_insert"
| "flatten_entries (entry # rest) rows_to_insert =
     (case flatten_entry entry of
        Inl e \<Rightarrow> Inl e
      | Inr None \<Rightarrow> flatten_entries rest rows_to_insert
      | Inr (Some row) \<Rightarrow> flatten_entries rest (rows_to_insert @ [row]))"

definition flatten_page :: "json \<Rightarrow> exn + staging_row list" where
  "flatten_page data =
     (case py_iter data of Inl e \<Rightarrow> Inl e | Inr entries \<Rightarrow> flatten_entries entries [])"

section \<open>\<^verbatim>\<open>int(next_row)\<close>\<close>

text \<open>
  Python's \<^verbatim>\<open>int\<close> on a string, base ten: surrounding whitespace is dropped, one sign is
  allowed, then decimal digits with single underscores between digits. A header value is
  a string of Latin-1 characters, so the digits are \<^verbatim>\<open>0\<close> to \<^verbatim>\<open>9\<close> and the whitespace
  characters are the eight below. A literal of more than 4300 digits is refused
  (the interpreter's default \<^verbatim>\<open>int_max_str_digits\<close>).
\<close>

definition is_space :: "char \<Rightarrow> bool" where
  "is_space c = (c \<in> {CHR 0x09, CHR 0x0A, CHR 0x0B, CHR 0x0C, CHR 0x0D, CHR 0x20, CHR 0x85, CHR 0xA0})"

definition is_digit :: "char \<Rightarrow> bool" where
  "is_digit c = (48 \<le> (of_char c :: nat) \<and> (of_char c :: nat) \<le> 57)"

definition digit_value :: "char \<Rightarrow> nat" where
  "digit_value c = of_char c - 48"

definition strip :: "string \<Rightarrow> string" where
  "strip s = rev (dropWhile is_space (rev (dropWhile is_space s)))"

fun parse_digits :: "string \<Rightarrow> nat \<Rightarrow> nat option" where
  "parse_digits [] acc = Some acc"
| "parse_digits [c] acc = (if is_digit c then Some (10 * acc + digit_value c) else None)"
| "parse_digits (c # d # ds) acc =
     (if is_digit c then parse_digits (d # ds) (10 * acc + digit_value c)
      else if c = CHR ''_'' \<and> is_digit d then parse_digits ds (10 * acc + digit_value d)
      else None)"

definition parse_unsigned :: "string \<Rightarrow> nat option" where
  "parse_unsigned s =
     (case s of
        [] \<Rightarrow> None
      | c # cs \<Rightarrow>
          if \<not> is_digit c then None
          else if length (filter is_digit s) > 4300 then None
          else parse_digits cs (digit_value c))"

definition py_int :: "string \<Rightarrow> int option" where
  "py_int s =
     (case strip s of
        [] \<Rightarrow> None
      | c # cs \<Rightarrow>
          if c = CHR ''-'' then map_option (\<lambda>n. - int n) (parse_unsigned cs)
          else if c = CHR ''+'' then map_option int (parse_unsigned cs)
          else map_option int (parse_unsigned (c # cs)))"

section \<open>The collaborators: environment, request, reporting API, database\<close>

text \<open>The response of \<^verbatim>\<open>requests.post\<close>: \<open>json_body = None\<close> when \<^verbatim>\<open>response.json()\<close> raises.\<close>

record http_response =
  upstream_status :: int
  json_body :: "json option"
  headers :: "string \<rightharpoonup> string"

record payload =
  start_date :: json
  end_date :: json
  page_size :: int
  first_row_number :: int

record api_request =
  url :: string
  json_payload :: payload
  auth :: "string \<times> string"

text \<open>
  The calls made on the pyodbc connection and its cursor. \<open>Truncate\<close> is
  \<^verbatim>\<open>cursor.execute("TRUNCATE TABLE [dbo].[StageTogglTimeEntries]")\<close> and \<open>InsertMany rows\<close> is
  \<^verbatim>\<open>cursor.executemany(sql_insert, rows)\<close>.
\<close>

datatype db_op =
    Connect string
  | Cursor
  | Truncate
  | InsertMany "staging_row list"
  | Commit
  | Close

text \<open>
  The trace of calls on the collaborators, oldest first. A database call carries whether
  it returned (\<open>True\<close>) or raised (\<open>False\<close>). The calls to \<^verbatim>\<open>logging\<close> are not traced.
\<close>

datatype event = GetJson | Db db_op bool | Post api_request

text \<open>
  What the function cannot decide: the environment, what \<^verbatim>\<open>req.get_json()\<close> gives
  (\<open>Inl msg\<close>: it raises \<^verbatim>\<open>ValueError(msg)\<close>), the table's rows before the run, and how the
  database and the API answer. \<open>api_reply w n req\<close> is the answer to the fetch number \<open>n\<close>
  (from 0), \<open>Inl msg\<close> when \<^verbatim>\<open>requests.post\<close> raises. \<open>db_fault w n op = Some msg\<close>: the call
  \<open>op\<close>, made after \<open>n\<close> fetches, raises \<^verbatim>\<open>pyodbc.Error(msg)\<close>; a run makes each kind of
  call at most once between two fetches, so this fixes the outcome of every call.
\<close>

record world =
  environ :: "string \<rightharpoonup> string"
  req_json :: "string + json"
  staging0 :: "staging_row list"
  db_fault :: "nat \<Rightarrow> db_op \<Rightarrow> string option"
  api_reply :: "nat \<Rightarrow> api_request \<Rightarrow> string + http_response"

text \<open>
  The state a run threads through: the trace, the number of fetches made, the rows of the
  staging table as committed, and the rows as the open transaction sees them
  (pyodbc connections do not autocommit).
\<close>

record state =
  events :: "event list"
  api_calls :: nat
  committed :: "staging_row list"
  pending :: "staging_row list"

definition initial :: "world \<Rightarrow> state" where
  "initial w = \<lparr>events = [], api_calls = 0, committed = staging0 w, pending = staging0 w\<rparr>"

definition log_event :: "event \<Rightarrow> state \<Rightarrow> state" where
  "log_event e s = s\<lparr>events := events s @ [e]\<rparr>"

text \<open>The effect of a database call that returns. Closing rolls the open transaction back.\<close>

fun db_effect :: "db_op \<Rightarrow> state \<Rightarrow> state" where
  "db_effect (Connect cs) s = s\<lparr>pending := committed s\<rparr>"
| "db_effect Cursor s = s"
| "db_effect Truncate s = s\<lparr>pending := []\<rparr>"
| "db_effect (InsertMany rows) s = s\<lparr>pending := pending s @ rows\<rparr>"
| "db_effect Commit s = s\<lparr>committed := pending s\<rparr>"
| "db_effect Close s = s\<lparr>pending := committed s\<rparr>"

text \<open>A database call that may raise; a call that raises leaves the table as it was.\<close>

definition db_call :: "world \<Rightarrow> db_op \<Rightarrow> state \<Rightarrow> exn option \<times> state" where
  "db_call w op s =
     (case db_fault w (api_calls s) op of
        Some msg \<Rightarrow> (Some (DatabaseError msg), log_event (Db op False) s)
      | None \<Rightarrow> (None, db_effect op (log_event (Db op True) s)))"

text \<open>\<^verbatim>\<open>conn.close()\<close> in the \<^verbatim>\<open>finally\<close> clause; it is taken not to raise.\<close>

definition conn_close :: "state \<Rightarrow> state" where
  "conn_close s = db_effect Close (log_event (Db Close True) s)"

section \<open>\<^verbatim>\<open>ingest_toggl_data\<close>\<close>

subsection \<open>Step 1: configuration\<close>

record config =
  AUTH :: "string \<times> string"
  URL :: string
  SQL_CONN_STRING :: string

text \<open>\<^verbatim>\<open>os.environ[k]\<close> raises \<^verbatim>\<open>KeyError(k)\<close> for a missing variable; the three reads are in the source's order.\<close>

definition load_config :: "(string \<rightharpoonup> string) \<Rightarrow> exn + config" where
  "load_config env =
     (case env ''TOGGL_API_TOKEN'' of
        None \<Rightarrow> Inl (KeyError ''TOGGL_API_TOKEN'')
      | Some TOGGL_API_TOKEN \<Rightarrow>
          (case env ''TOGGL_WORKSPACE_ID'' of
             None \<Rightarrow> Inl (KeyError ''TOGGL_WORKSPACE_ID'')
           | Some WORKSPACE_ID \<Rightarrow>
               (case env ''SqlConnectionString'' of
                  None \<Rightarrow> Inl (KeyError ''SqlConnectionString'')
                | Some conn_string \<Rightarrow>
                    Inr \<lparr>AUTH = (TOGGL_API_TOKEN, ''api_token''),
                         URL = ''https://api.track.toggl.com/reports/api/v3/workspace/''
                               @ WORKSPACE_ID @ ''/search/time_entries'',
                         SQL_CONN_STRING = conn_string\<rparr>)))"

subsection \<open>Step 2: the dates of the request\<close>

text \<open>
  The body of the second \<^verbatim>\<open>try\<close>: \<^verbatim>\<open>req.get_json()\<close>, the two \<^verbatim>\<open>req_body.get\<close> calls and the
  presence check. The \<^verbatim>\<open>except ValueError\<close> clause is applied by the caller below.
\<close>

definition read_dates :: "world \<Rightarrow> exn + (json \<times> json)" where
  "read_dates w =
     (case req_json w of
        Inl msg \<Rightarrow> Inl (ValueError msg)
      | Inr req_body \<Rightarrow>
          (case json_get req_body ''start_date'' of
             Inl e \<Rightarrow> Inl e
           | Inr sd \<Rightarrow>
               (case json_get req_body ''end_date'' of
                  Inl e \<Rightarrow> Inl e
                | Inr ed \<Rightarrow>
                    if \<not> truthy sd \<or> \<not> truthy ed
                    then Inl (ValueError ''Missing start_date or end_date'')
                    else Inr (sd, ed))))"

fun is_ValueError :: "exn \<Rightarrow> bool" where
  "is_ValueError (ValueError msg) = True"
| "is_ValueError _ = False"

subsection \<open>Steps 4 to 7: one pass of the \<^verbatim>\<open>while True\<close> loop\<close>

text \<open>\<^verbatim>\<open>response.raise_for_status()\<close>: an \<^verbatim>\<open>HTTPError\<close> for a status from 400 to 599.\<close>

definition raise_for_status :: "http_response \<Rightarrow> exn option" where
  "raise_for_status response =
     (if 400 \<le> upstream_status response \<and> upstream_status response < 600
      then Some (HTTPError (upstream_status response)) else None)"

definition response_json :: "http_response \<Rightarrow> exn + json" where
  "response_json response =
     (case json_body response of
        None \<Rightarrow> Inl (ValueError ''response body is not JSON'')
      | Some data \<Rightarrow> Inr data)"

text \<open>
  Step 6: nothing is sent for an empty \<^verbatim>\<open>rows_to_insert\<close>; otherwise \<^verbatim>\<open>executemany\<close>,
  \<^verbatim>\<open>commit\<close>, and then \<^verbatim>\<open>total_loaded += len(rows_to_insert)\<close>.
\<close>

definition bulk_insert ::
  "world \<Rightarrow> staging_row list \<Rightarrow> nat \<Rightarrow> state \<Rightarrow> exn option \<times> nat \<times> state" where
  "bulk_insert w rows_to_insert total_loaded s =
     (if rows_to_insert = [] then (None, total_loaded, s)
      else
        (case db_call w (InsertMany rows_to_insert) s of
           (Some e, s1) \<Rightarrow> (Some e, total_loaded, s1)
         | (None, s1) \<Rightarrow>
             (case db_call w Commit s1 of
                (Some e, s2) \<Rightarrow> (Some e, total_loaded, s2)
              | (None, s2) \<Rightarrow> (None, total_loaded + length rows_to_insert, s2))))"

text \<open>
  Step 7: \<open>Inr (Some n)\<close> is the new \<^verbatim>\<open>first_row_number\<close>, \<open>Inr None\<close> is \<^verbatim>\<open>break\<close>. The
  header's name is looked up as written.
\<close>

definition handle_pagination :: "http_response \<Rightarrow> exn + int option" where
  "handle_pagination response =
     (case headers response ''X-Next-Row-Number'' of
        None \<Rightarrow> Inr None
      | Some next_row \<Rightarrow>
          if next_row = [] then Inr None
          else
            (case py_int next_row of
               None \<Rightarrow> Inl (ValueError ''invalid literal for int()'')
             | Some n \<Rightarrow> Inr (Some n)))"

definition build_request :: "config \<Rightarrow> json \<Rightarrow> json \<Rightarrow> int \<Rightarrow> api_request" where
  "build_request cfg sd ed frn =
     \<lparr>url = URL cfg,
      json_payload = \<lparr>start_date = sd, end_date = ed, page_size = 50, first_row_number = frn\<rparr>,
      auth = AUTH cfg\<rparr>"

text \<open>
  One pass of the loop body from the state \<open>s\<close>. The result is \<open>Inl e\<close> for an exception,
  \<open>Inr None\<close> for \<^verbatim>\<open>break\<close> and \<open>Inr (Some n)\<close> for another pass with \<^verbatim>\<open>first_row_number = n\<close>,
  together with \<^verbatim>\<open>total_loaded\<close> and the state after the pass.
\<close>

definition loop_body ::
  "world \<Rightarrow> config \<Rightarrow> json \<Rightarrow> json \<Rightarrow> int \<Rightarrow> nat \<Rightarrow> state \<Rightarrow> (exn + int option) \<times> nat \<times> state" where
  "loop_body w cfg sd ed frn total_loaded s =
     (let req = build_request cfg sd ed frn;
          s1 = (log_event (Post req) s)\<lparr>api_calls := Suc (api_calls s)\<rparr>
      in (case api_reply w (api_calls s) req of
            Inl msg \<Rightarrow> (Inl (RequestException msg), total_loaded, s1)
          | Inr response \<Rightarrow>
              (case raise_for_status response of
                 Some e \<Rightarrow> (Inl e, total_loaded, s1)
               | None \<Rightarrow>
                   (case response_json response of
                      Inl e \<Rightarrow> (Inl e, total_loaded, s1)
                    | Inr data \<Rightarrow>
                        if \<not> truthy data then (Inr None, total_loaded, s1)
                        else
                          (case flatten_page data of
                             Inl e \<Rightarrow> (Inl e, total_loaded, s1)
                           | Inr rows_to_insert \<Rightarrow>
                               (case bulk_insert w rows_to_insert total_loaded s1 of
                                  (Some e, total', s2) \<Rightarrow> (Inl e, total', s2)
                                | (None, total', s2) \<Rightarrow>
                                    (case handle_pagination response of
                                       Inl e \<Rightarrow> (Inl e, total', s2)
                                     | Inr next \<Rightarrow> (Inr next, total', s2))))))))"

text \<open>
  The \<^verbatim>\<open>while True\<close> loop. It ends with \<open>Inr total_loaded\<close> at a \<^verbatim>\<open>break\<close> and with \<open>Inl e\<close>
  at an exception; \<open>None\<close> is a loop that never ends.
\<close>

partial_function (option) pagination_loop ::
  "world \<Rightarrow> config \<Rightarrow> json \<Rightarrow> json \<Rightarrow> int \<Rightarrow> nat \<Rightarrow> state \<Rightarrow> ((exn + nat) \<times> state) option" where
  "pagination_loop w cfg sd ed frn total_loaded s =
     (case loop_body w cfg sd ed frn total_loaded s of
        (Inl e, total', s') \<Rightarrow> Some (Inl e, s')
      | (Inr None, total', s') \<Rightarrow> Some (Inr total', s')
      | (Inr (Some n), total', s') \<Rightarrow> pagination_loop w cfg sd ed n total' s')"

subsection \<open>Step 3 and the third \<^verbatim>\<open>try\<close> block\<close>

text \<open>
  The block up to its \<^verbatim>\<open>return\<close>: connect, cursor, truncate, commit, then the loop. The
  boolean tells whether \<^verbatim>\<open>conn\<close> was assigned, which is what \<^verbatim>\<open>finally\<close> tests.
\<close>

definition try_block ::
  "world \<Rightarrow> config \<Rightarrow> json \<Rightarrow> json \<Rightarrow> state \<Rightarrow> ((exn + nat) \<times> bool \<times> state) option" where
  "try_block w cfg sd ed s =
     (case db_call w (Connect (SQL_CONN_STRING cfg)) s of
        (Some e, s1) \<Rightarrow> Some (Inl e, False, s1)
      | (None, s1) \<Rightarrow>
          (case db_call w Cursor s1 of
             (Some e, s2) \<Rightarrow> Some (Inl e, True, s2)
           | (None, s2) \<Rightarrow>
               (case db_call w Truncate s2 of
                  (Some e, s3) \<Rightarrow> Some (Inl e, True, s3)
                | (None, s3) \<Rightarrow>
                    (case db_call w Commit s3 of
                       (Some e, s4) \<Rightarrow> Some (Inl e, True, s4)
                     | (None, s4) \<Rightarrow>
                         map_option (\<lambda>(r, s'). (r, True, s'))
                           (pagination_loop w cfg sd ed 1 0 s4)))))"

subsection \<open>The responses and the whole function\<close>

text \<open>
  The text of an \<^verbatim>\<open>HttpResponse\<close>, by the f-string that builds it: \<^verbatim>\<open>"Missing config: {e}"\<close>,
  \<^verbatim>\<open>"Invalid Body: {e}"\<close>, \<^verbatim>\<open>"Success. Loaded {total_loaded} records into Staging."\<close> and
  \<^verbatim>\<open>"Error: {e}"\<close>.
\<close>

datatype message =
    Missing_config exn
  | Invalid_Body exn
  | Success_Loaded nat
  | Error exn

record http_reply =
  status_code :: int
  body :: message

text \<open>The \<^verbatim>\<open>return\<close> and the \<^verbatim>\<open>except Exception\<close> clause of the third \<^verbatim>\<open>try\<close>.\<close>

fun reply_of :: "exn + nat \<Rightarrow> http_reply" where
  "reply_of (Inr total_loaded) = \<lparr>status_code = 200, body = Success_Loaded total_loaded\<rparr>"
| "reply_of (Inl e) = \<lparr>status_code = 500, body = Error e\<rparr>"

text \<open>The \<^verbatim>\<open>finally\<close> clause: \<^verbatim>\<open>if conn: conn.close()\<close>.\<close>

definition finally_close :: "bool \<Rightarrow> state \<Rightarrow> state" where
  "finally_close conn s = (if conn then conn_close s else s)"

text \<open>
  A run from the initial state. \<open>Some (Inr reply, s)\<close>: the function returns \<open>reply\<close> and
  leaves the collaborators in \<open>s\<close>; \<open>Some (Inl e, s)\<close>: the exception \<open>e\<close> leaves the function;
  \<open>None\<close>: the function never returns.
\<close>

definition ingest_toggl_data :: "world \<Rightarrow> ((exn + http_reply) \<times> state) option" where
  "ingest_toggl_data w =
     (case load_config (environ w) of
        Inl e \<Rightarrow> Some (Inr \<lparr>status_code = 500, body = Missing_config e\<rparr>, initial w)
      | Inr cfg \<Rightarrow>
          (let s1 = log_event GetJson (initial w)
           in (case read_dates w of
                 Inl e \<Rightarrow>
                   if is_ValueError e
                   then Some (Inr \<lparr>status_code = 400, body = Invalid_Body e\<rparr>, s1)
                   else Some (Inl e, s1)
               | Inr (sd, ed) \<Rightarrow>
                   map_option (\<lambda>(r, conn, s'). (Inr (reply_of r), finally_close conn s'))
                     (try_block w cfg sd ed s1))))"

section \<open>Vocabulary of the properties\<close>

text \<open>Classifiers of trace events, and the counts read off a trace.\<close>

fun is_Post :: "event \<Rightarrow> bool" where
  "is_Post (Post req) = True"
| "is_Post _ = False"

fun is_Truncate :: "event \<Rightarrow> bool" where
  "is_Truncate (Db Truncate b) = True"
| "is_Truncate _ = False"

fun is_Close :: "event \<Rightarrow> bool" where
  "is_Close (Db Close b) = True"
| "is_Close _ = False"

fun is_Insert :: "event \<Rightarrow> bool" where
  "is_Insert (Db (InsertMany rows) b) = True"
| "is_Insert _ = False"

text \<open>The events a pass of the loop can add: a fetch, an insert of at least one row, a commit.\<close>

fun loop_event :: "event \<Rightarrow> bool" where
  "loop_event (Post req) = True"
| "loop_event (Db (InsertMany rows) b) = (rows \<noteq> [])"
| "loop_event (Db Commit b) = True"
| "loop_event _ = False"

definition fetches :: "state \<Rightarrow> nat" where
  "fetches s = length (filter is_Post (events s))"

definition clears :: "state \<Rightarrow> nat" where
  "clears s = length (filter is_Truncate (events s))"

text \<open>The trace of a run up to the committed clear of the staging table.\<close>

definition cleared :: "string \<Rightarrow> event list" where
  "cleared cs = [GetJson, Db (Connect cs) True, Db Cursor True, Db Truncate True, Db Commit True]"

text \<open>The state in which the loop is entered when steps 1 to 3 succeed.\<close>

definition loop_entry :: "world \<Rightarrow> config \<Rightarrow> state" where
  "loop_entry w cfg =
     \<lparr>events = cleared (SQL_CONN_STRING cfg), api_calls = 0, committed = [], pending = []\<rparr>"

text \<open>
  Page responses. \<open>rows_of p\<close> are the rows the page flattens to (none for an empty page);
  \<open>page_ok p\<close>: the status is no error, the body decodes and every entry flattens without
  an exception; \<open>non_empty p\<close>: the decoded body is truthy; \<open>continues p\<close>: a non-empty
  page with a next-cursor header that \<^verbatim>\<open>int\<close> accepts.
\<close>

definition rows_of :: "http_response \<Rightarrow> staging_row list" where
  "rows_of p =
     (case json_body p of
        None \<Rightarrow> []
      | Some data \<Rightarrow>
          if \<not> truthy data then []
          else (case flatten_page data of Inl e \<Rightarrow> [] | Inr rows \<Rightarrow> rows))"

definition page_ok :: "http_response \<Rightarrow> bool" where
  "page_ok p =
     (raise_for_status p = None \<and>
      (case json_body p of
         None \<Rightarrow> False
       | Some data \<Rightarrow>
           \<not> truthy data \<or> (case flatten_page data of Inl e \<Rightarrow> False | Inr rows \<Rightarrow> True)))"

definition non_empty :: "http_response \<Rightarrow> bool" where
  "non_empty p = (case json_body p of None \<Rightarrow> False | Some data \<Rightarrow> truthy data)"

definition continues :: "http_response \<Rightarrow> bool" where
  "continues p =
     (page_ok p \<and> non_empty p \<and>
      (case handle_pagination p of Inr (Some n) \<Rightarrow> True | _ \<Rightarrow> False))"

text \<open>
  \<open>serves w n r\<close>: the API answers fetch number \<open>n\<close> with \<open>r\<close>, whatever is asked.
  \<open>storage_ok w n\<close>: no database call made after \<open>n\<close> fetches raises.
\<close>

definition serves :: "world \<Rightarrow> nat \<Rightarrow> string + http_response \<Rightarrow> bool" where
  "serves w n r = (\<forall>req. api_reply w n req = r)"

definition storage_ok :: "world \<Rightarrow> nat \<Rightarrow> bool" where
  "storage_ok w n = (\<forall>op. db_fault w n op = None)"

text \<open>
  The two ways a page fails that the error taxonomy names: the fetch raises, returns an
  error status or a body that does not decode; or the page is fine and has rows, and its
  insert or its commit raises.
\<close>

definition upstream_error :: "string + http_response \<Rightarrow> bool" where
  "upstream_error r =
     (case r of Inl msg \<Rightarrow> True | Inr p \<Rightarrow> raise_for_status p \<noteq> None \<or> json_body p = None)"

definition storage_error :: "world \<Rightarrow> nat \<Rightarrow> string + http_response \<Rightarrow> bool" where
  "storage_error w n r =
     (case r of
        Inl msg \<Rightarrow> False
      | Inr p \<Rightarrow>
          page_ok p \<and> rows_of p \<noteq> [] \<and>
          (db_fault w n (InsertMany (rows_of p)) \<noteq> None \<or> db_fault w n Commit \<noteq> None))"

section \<open>Concrete runs\<close>

text \<open>Small worlds on which the properties below are exercised.\<close>

definition env_ok :: "string \<rightharpoonup> string" where
  "env_ok = map_of [(''TOGGL_API_TOKEN'', ''tok''), (''TOGGL_WORKSPACE_ID'', ''42''),
                    (''SqlConnectionString'', ''dsn'')]"

definition cfg_ok :: config where
  "cfg_ok = \<lparr>AUTH = (''tok'', ''api_token''),
            URL = ''https://api.track.toggl.com/reports/api/v3/workspace/42/search/time_entries'',
            SQL_CONN_STRING = ''dsn''\<rparr>"

definition body_ok :: json where
  "body_ok = JObj [(''start_date'', JStr ''2024-01-01''), (''end_date'', JStr ''2024-01-07'')]"

definition no_fault :: "nat \<Rightarrow> db_op \<Rightarrow> string option" where
  "no_fault n op = None"

definition old_row :: staging_row where
  "old_row = (JInt 1, JInt 1, JNull, JNull, JBool False, JStr ''old'', JNull, JNull, JInt 0, JNull)"

definition entry_a :: json where
  "entry_a = JObj [(''user_id'', JInt 7), (''billable'', JBool True), (''description'', JStr ''work''),
                   (''time_entries'', JArr [JObj [(''id'', JInt 100), (''seconds'', JInt 60)],
                                            JObj [(''id'', JInt 101), (''seconds'', JInt 30)]])]"

definition row_a :: staging_row where
  "row_a = (JInt 100, JInt 7, JNull, JNull, JBool True, JStr ''work'', JNull, JNull, JInt 60, JNull)"

definition entry_no_details :: json where
  "entry_no_details = JObj [(''user_id'', JInt 8), (''time_entries'', JArr [])]"

definition entry_no_billable :: json where
  "entry_no_billable = JObj [(''user_id'', JInt 9), (''time_entries'', JArr [JObj [(''id'', JInt 102)]])]"

definition page_one :: http_response where
  "page_one = \<lparr>upstream_status = 200, json_body = Some (JArr [entry_a, entry_no_details, entry_a]),
               headers = map_of [(''X-Next-Row-Number'', ''4'')]\<rparr>"

definition page_two :: http_response where
  "page_two = \<lparr>upstream_status = 200, json_body = Some (JArr [entry_a]), headers = Map.empty\<rparr>"

definition page_error :: http_response where
  "page_error = \<lparr>upstream_status = 500, json_body = None, headers = Map.empty\<rparr>"

definition page_bad_cursor :: http_response where
  "page_bad_cursor = \<lparr>upstream_status = 200, json_body = Some (JArr [entry_a]),
                      headers = map_of [(''X-Next-Row-Number'', ''abc'')]\<rparr>"

definition page_empty_bad_cursor :: http_response where
  "page_empty_bad_cursor = \<lparr>upstream_status = 200, json_body = Some (JArr []),
                            headers = map_of [(''X-Next-Row-Number'', ''abc'')]\<rparr>"

definition page_blank_cursor :: http_response where
  "page_blank_cursor = \<lparr>upstream_status = 200, json_body = Some (JArr [entry_a]),
                        headers = map_of [(''X-Next-Row-Number'', [])]\<rparr>"

definition one_page_api :: "nat \<Rightarrow> api_request \<Rightarrow> string + http_response" where
  "one_page_api n req = Inr page_two"

definition two_pages_api :: "nat \<Rightarrow> api_request \<Rightarrow> string + http_response" where
  "two_pages_api n req = (if n = 0 then Inr page_one else Inr page_two)"

definition two_then_error_api :: "nat \<Rightarrow> api_request \<Rightarrow> string + http_response" where
  "two_then_error_api n req = (if n = 0 then Inr page_one else Inr page_error)"

definition then_empty_api :: "nat \<Rightarrow> api_request \<Rightarrow> string + http_response" where
  "then_empty_api n req = (if n = 0 then Inr page_one else Inr page_empty_bad_cursor)"

definition bad_cursor_api :: "nat \<Rightarrow> api_request \<Rightarrow> string + http_response" where
  "bad_cursor_api n req = Inr page_bad_cursor"

definition empty_bad_cursor_api :: "nat \<Rightarrow> api_request \<Rightarrow> string + http_response" where
  "empty_bad_cursor_api n req = Inr page_empty_bad_cursor"

definition blank_cursor_api :: "nat \<Rightarrow> api_request \<Rightarrow> string + http_response" where
  "blank_cursor_api n req = Inr page_blank_cursor"

definition fetch_raises_api :: "nat \<Rightarrow> api_request \<Rightarrow> string + http_response" where
  "fetch_raises_api n req = Inl ''connection reset''"

definition world_of :: "(nat \<Rightarrow> api_request \<Rightarrow> string + http_response) \<Rightarrow> world" where
  "world_of api = \<lparr>environ = env_ok, req_json = Inr body_ok, staging0 = [old_row],
                   db_fault = no_fault, api_reply = api\<rparr>"

definition world_one_page :: world where
  "world_one_page = world_of one_page_api"

definition world_two_pages :: world where
  "world_two_pages = world_of two_pages_api"

definition world_then_empty :: world where
  "world_then_empty = world_of then_empty_api"

definition world_page_two_fails :: world where
  "world_page_two_fails = world_of two_then_error_api"

definition world_bad_cursor :: world where
  "world_bad_cursor = world_of bad_cursor_api"

definition world_empty_bad_cursor :: world where
  "world_empty_bad_cursor = world_of empty_bad_cursor_api"

definition world_blank_cursor :: world where
  "world_blank_cursor = world_of blank_cursor_api"

definition world_fetch_raises :: world where
  "world_fetch_raises = world_of fetch_raises_api"

definition commit_fault :: "nat \<Rightarrow> db_op \<Rightarrow> string option" where
  "commit_fault n op = (if n = 2 \<and> op = Commit then Some ''deadlock'' else None)"

definition world_commit_fails :: world where
  "world_commit_fails = \<lparr>environ = env_ok, req_json = Inr body_ok, staging0 = [old_row],
                         db_fault = commit_fault, api_reply = two_pages_api\<rparr>"

definition world_no_config :: world where
  "world_no_config = \<lparr>environ = Map.empty, req_json = Inr (JObj []), staging0 = [old_row],
                      db_fault = no_fault, api_reply = one_page_api\<rparr>"

definition world_no_dates :: world where
  "world_no_dates = \<lparr>environ = env_ok, req_json = Inr (JObj []), staging0 = [old_row],
                     db_fault = no_fault, api_reply = one_page_api\<rparr>"

definition world_bad_json :: world where
  "world_bad_json = \<lparr>environ = env_ok, req_json = Inl ''Expecting value'', staging0 = [old_row],
                     db_fault = no_fault, api_reply = one_page_api\<rparr>"

definition world_list_body :: world where
  "world_list_body = \<lparr>environ = env_ok, req_json = Inr (JArr []), staging0 = [old_row],
                      db_fault = no_fault, api_reply = one_page_api\<rparr>"

definition request_one :: api_request where
  "request_one =
     \<lparr>url = ''https://api.track.toggl.com/reports/api/v3/workspace/42/search/time_entries'',
      json_payload = \<lparr>start_date = JStr ''2024-01-01'', end_date = JStr ''2024-01-07'',
                      page_size = 50, first_row_number = 1\<rparr>,
      auth = (''tok'', ''api_token'')\<rparr>"

definition one_page_final :: state where
  "one_page_final =
     \<lparr>events = cleared ''dsn'' @
                [Post request_one, Db (InsertMany [row_a]) True, Db Commit True, Db Close True],
      api_calls = 1, committed = [row_a], pending = [row_a]\<rparr>"

definition fetch_raises_final :: state where
  "fetch_raises_final =
     \<lparr>events = cleared ''dsn'' @ [Post request_one, Db Close True],
      api_calls = 1, committed = [], pending = []\<rparr>"

definition no_dates_final :: state where
  "no_dates_final = \<lparr>events = [GetJson], api_calls = 0, committed = [old_row], pending = [old_row]\<rparr>"

section \<open>The flattener\<close>

lemma flatten_entry_a: "flatten_entry entry_a = Inr (Some row_a)"
  by (simp add: entry_a_def row_a_def dict_get_def)

lemma flatten_entry_no_details: "flatten_entry entry_no_details = Inr None"
  by (simp add: entry_no_details_def dict_get_def)

text \<open>
  Claim C4. A search result whose \<^verbatim>\<open>time_entries\<close> list is absent or empty gives no row and
  no error. A result whose list is non-empty gives one row: its detail fields (positions 1,
  7, 8, 9, 10) are read from the first element of the list, the other fields from the
  result itself, in the column order of the staging table; a key that is missing reads
  as \<^verbatim>\<open>None\<close>.
\<close>

theorem flatten_entry_row:
  "(map_of entry ''time_entries'' = None \<or> map_of entry ''time_entries'' = Some (JArr [])
      \<longrightarrow> flatten_entry (JObj entry) = Inr None) \<and>
   (map_of entry ''time_entries'' = Some (JArr (JObj d # rest))
      \<longrightarrow> flatten_entry (JObj entry) =
            Inr (Some (dict_get d ''id'', dict_get entry ''user_id'', dict_get entry ''project_id'',
                       dict_get entry ''task_id'', dict_get entry ''billable'',
                       dict_get entry ''description'', dict_get d ''start'', dict_get d ''stop'',
                       dict_get d ''seconds'', dict_get d ''at''))) \<and>
   (map_of entry k = None \<longrightarrow> dict_get entry k = JNull) \<and>
   (map_of d k' = None \<longrightarrow> dict_get d k' = JNull)"
  by (auto simp: dict_get_def)

theorem flatten_entry_row_witness:
  "flatten_entry (JObj [(''user_id'', JInt 8)]) = Inr None
   \<and> flatten_entry (JObj [(''user_id'', JInt 8), (''time_entries'', JArr [])]) = Inr None
   \<and> flatten_entry (JObj [(''user_id'', JInt 7),
                           (''time_entries'', JArr [JObj [(''id'', JInt 100)], JObj [(''id'', JInt 101)]])])
       = Inr (Some (JInt 100, JInt 7, JNull, JNull, JNull, JNull, JNull, JNull, JNull, JNull))"
proof -
  let ?absent = "[(''user_id'', JInt 8)]"
  let ?empty = "[(''user_id'', JInt 8), (''time_entries'', JArr [])]"
  let ?d = "[(''id'', JInt 100)]"
  let ?rest = "[JObj [(''id'', JInt 101)]]"
  let ?full = "[(''user_id'', JInt 7), (''time_entries'', JArr (JObj ?d # ?rest))]"
  have h1: "map_of ?absent ''time_entries'' = None \<or> map_of ?absent ''time_entries'' = Some (JArr [])"
    by simp
  have h2: "map_of ?empty ''time_entries'' = None \<or> map_of ?empty ''time_entries'' = Some (JArr [])"
    by simp
  have h3: "map_of ?full ''time_entries'' = Some (JArr (JObj ?d # ?rest))" by simp
  have h4: "map_of ?full ''billable'' = None" "map_of ?d ''start'' = None" by simp_all
  from h1 flatten_entry_row[of ?absent] have a: "flatten_entry (JObj ?absent) = Inr None" by blast
  from h2 flatten_entry_row[of ?empty] have b: "flatten_entry (JObj ?empty) = Inr None" by blast
  from h3 h4 flatten_entry_row[of ?full ?d ?rest "''billable''" "''start''"]
  have c: "flatten_entry (JObj ?full) =
            Inr (Some (dict_get ?d ''id'', dict_get ?full ''user_id'', dict_get ?full ''project_id'',
                       dict_get ?full ''task_id'', dict_get ?full ''billable'',
                       dict_get ?full ''description'', dict_get ?d ''start'', dict_get ?d ''stop'',
                       dict_get ?d ''seconds'', dict_get ?d ''at''))"
    and d: "dict_get ?full ''billable'' = JNull" "dict_get ?d ''start'' = JNull"
    by blast+
  show ?thesis using a b c d by (simp add: dict_get_def)
qed

text \<open>
  Claim C1. The row's billable field should be the integer 1 for a truthy raw value and the
  integer 0 otherwise. The code computes that integer in \<^verbatim>\<open>is_billable\<close> and then builds the
  row from \<^verbatim>\<open>entry.get('billable')\<close>: for the raw value \<^verbatim>\<open>true\<close> the field holds the boolean,
  and for a result without the key it holds \<^verbatim>\<open>None\<close>.
\<close>

theorem billable_passed_through:
  "flatten_entry entry_a =
     Inr (Some (JInt 100, JInt 7, JNull, JNull, JBool True, JStr ''work'', JNull, JNull, JInt 60, JNull))
   \<and> flatten_entry entry_no_billable =
     Inr (Some (JInt 102, JInt 9, JNull, JNull, JNull, JNull, JNull, JNull, JNull, JNull))"
  by (simp add: entry_a_def entry_no_billable_def dict_get_def)

section \<open>Configuration and request validation\<close>

lemma load_config_missing:
  "environ w ''TOGGL_API_TOKEN'' = None \<or> environ w ''TOGGL_WORKSPACE_ID'' = None
     \<or> environ w ''SqlConnectionString'' = None
   \<Longrightarrow> \<exists>k. load_config (environ w) = Inl (KeyError k)"
  by (auto simp: load_config_def split: option.splits)

lemma env_ok_config: "load_config env_ok = Inr cfg_ok"
  by (simp add: load_config_def env_ok_def cfg_ok_def)

lemma body_ok_dates:
  "req_json w = Inr body_ok \<Longrightarrow> read_dates w = Inr (JStr ''2024-01-01'', JStr ''2024-01-07'')"
  by (simp add: read_dates_def body_ok_def dict_get_def)

text \<open>
  Claim C3. When one of the three settings is missing from the environment, the function
  returns status 500 with the missing-configuration text, and no call has been made on the
  request, the API or the database.
\<close>

theorem missing_config_is_500:
  "environ w ''TOGGL_API_TOKEN'' = None \<or> environ w ''TOGGL_WORKSPACE_ID'' = None
     \<or> environ w ''SqlConnectionString'' = None
   \<Longrightarrow> \<exists>e s. ingest_toggl_data w = Some (Inr \<lparr>status_code = 500, body = Missing_config e\<rparr>, s)
          \<and> events s = [] \<and> committed s = staging0 w"
  using load_config_missing[of w] by (auto simp: ingest_toggl_data_def initial_def)

theorem missing_config_is_500_witness:
  "(environ world_no_config ''TOGGL_API_TOKEN'' = None
      \<or> environ world_no_config ''TOGGL_WORKSPACE_ID'' = None
      \<or> environ world_no_config ''SqlConnectionString'' = None)
   \<and> (\<exists>e s. ingest_toggl_data world_no_config
               = Some (Inr \<lparr>status_code = 500, body = Missing_config e\<rparr>, s)
          \<and> events s = [] \<and> committed s = staging0 world_no_config)"
proof -
  have h: "environ world_no_config ''TOGGL_API_TOKEN'' = None
      \<or> environ world_no_config ''TOGGL_WORKSPACE_ID'' = None
      \<or> environ world_no_config ''SqlConnectionString'' = None"
    by (simp add: world_no_config_def)
  from missing_config_is_500[OF h] h show ?thesis by blast
qed

text \<open>
  Claim C9. The configuration is read before the request: when a setting is missing and the
  body also lacks a date, the answer is the 500 of the configuration, not the 400 of the
  request, and \<^verbatim>\<open>req.get_json()\<close> has not been called.
\<close>

theorem config_checked_before_body:
  assumes "environ w ''TOGGL_API_TOKEN'' = None \<or> environ w ''TOGGL_WORKSPACE_ID'' = None
             \<or> environ w ''SqlConnectionString'' = None"
    and "req_json w = Inr (JObj b)"
    and "map_of b ''start_date'' = None \<or> map_of b ''end_date'' = None"
  shows "\<exists>e s. ingest_toggl_data w = Some (Inr \<lparr>status_code = 500, body = Missing_config e\<rparr>, s)
           \<and> GetJson \<notin> set (events s)"
  using load_config_missing[OF assms(1)] by (auto simp: ingest_toggl_data_def initial_def)

theorem config_checked_before_body_witness:
  "\<exists>e s. ingest_toggl_data world_no_config
            = Some (Inr \<lparr>status_code = 500, body = Missing_config e\<rparr>, s)
      \<and> GetJson \<notin> set (events s)"
proof -
  have h1: "environ world_no_config ''TOGGL_API_TOKEN'' = None
      \<or> environ world_no_config ''TOGGL_WORKSPACE_ID'' = None
      \<or> environ world_no_config ''SqlConnectionString'' = None"
    by (simp add: world_no_config_def)
  have h2: "req_json world_no_config = Inr (JObj [])" by (simp add: world_no_config_def)
  have h3: "map_of ([] :: (string \<times> json) list) ''start_date'' = None
            \<or> map_of ([] :: (string \<times> json) list) ''end_date'' = None"
    by simp
  from config_checked_before_body[OF h1 h2 h3] show ?thesis .
qed

text \<open>
  Claim C2, as stated: every request whose body lacks a date, or is not JSON, is answered
  with 400. It fails when a setting is missing too: the answer is then the 500 of the
  configuration.
\<close>

theorem missing_dates_counterexample:
  "req_json world_no_config = Inr (JObj [])
   \<and> ingest_toggl_data world_no_config
       = Some (Inr \<lparr>status_code = 500, body = Missing_config (KeyError ''TOGGL_API_TOKEN'')\<rparr>,
               initial world_no_config)"
  by (simp add: ingest_toggl_data_def world_no_config_def load_config_def)

text \<open>
  Claim C2, amended. When the three settings are present and the body is not JSON, or is
  a JSON object without \<^verbatim>\<open>start_date\<close> or without \<^verbatim>\<open>end_date\<close>, the function returns status
  400 with the invalid-body text; the only call made is \<^verbatim>\<open>req.get_json()\<close>, and the staging
  table is untouched.
\<close>

theorem missing_dates_is_400:
  assumes "environ w ''TOGGL_API_TOKEN'' = Some tok"
    and "environ w ''TOGGL_WORKSPACE_ID'' = Some wid"
    and "environ w ''SqlConnectionString'' = Some cs"
    and "(\<exists>msg. req_json w = Inl msg)
         \<or> (\<exists>b. req_json w = Inr (JObj b)
                \<and> (map_of b ''start_date'' = None \<or> map_of b ''end_date'' = None))"
  shows "\<exists>e s. ingest_toggl_data w = Some (Inr \<lparr>status_code = 400, body = Invalid_Body e\<rparr>, s)
           \<and> events s = [GetJson] \<and> committed s = staging0 w"
proof -
  have cfg: "\<exists>cfg. load_config (environ w) = Inr cfg"
    using assms(1-3) by (simp add: load_config_def)
  have "\<exists>msg. read_dates w = Inl (ValueError msg)"
    using assms(4) by (auto simp: read_dates_def dict_get_def)
  with cfg show ?thesis
    by (auto simp: ingest_toggl_data_def Let_def log_event_def initial_def)
qed

theorem missing_dates_is_400_witness:
  "(\<exists>e s. ingest_toggl_data world_no_dates
             = Some (Inr \<lparr>status_code = 400, body = Invalid_Body e\<rparr>, s)
        \<and> events s = [GetJson] \<and> committed s = staging0 world_no_dates)
   \<and> (\<exists>e s. ingest_toggl_data world_bad_json
             = Some (Inr \<lparr>status_code = 400, body = Invalid_Body e\<rparr>, s)
        \<and> events s = [GetJson] \<and> committed s = staging0 world_bad_json)"
proof -
  have e1: "environ world_no_dates ''TOGGL_API_TOKEN'' = Some ''tok''"
    "environ world_no_dates ''TOGGL_WORKSPACE_ID'' = Some ''42''"
    "environ world_no_dates ''SqlConnectionString'' = Some ''dsn''"
    by (simp_all add: world_no_dates_def env_ok_def)
  have b1: "(\<exists>msg. req_json world_no_dates = Inl msg)
         \<or> (\<exists>b. req_json world_no_dates = Inr (JObj b)
                \<and> (map_of b ''start_date'' = None \<or> map_of b ''end_date'' = None))"
    by (simp add: world_no_dates_def)
  have e2: "environ world_bad_json ''TOGGL_API_TOKEN'' = Some ''tok''"
    "environ world_bad_json ''TOGGL_WORKSPACE_ID'' = Some ''42''"
    "environ world_bad_json ''SqlConnectionString'' = Some ''dsn''"
    by (simp_all add: world_bad_json_def env_ok_def)
  have b2: "(\<exists>msg. req_json world_bad_json = Inl msg)
         \<or> (\<exists>b. req_json world_bad_json = Inr (JObj b)
                \<and> (map_of b ''start_date'' = None \<or> map_of b ''end_date'' = None))"
    by (simp add: world_bad_json_def)
  from missing_dates_is_400[OF e1 b1] missing_dates_is_400[OF e2 b2] show ?thesis by blast
qed

text \<open>
  A body that is JSON but not an object is outside both statements of C2: the
  \<^verbatim>\<open>AttributeError\<close> of \<^verbatim>\<open>req_body.get\<close> is not a \<^verbatim>\<open>ValueError\<close> and leaves the function.
\<close>

lemma non_object_body_escapes:
  "ingest_toggl_data world_list_body
     = Some (Inl (AttributeError ''get''), log_event GetJson (initial world_list_body))"
  by (simp add: ingest_toggl_data_def world_list_body_def env_ok_config read_dates_def)

section \<open>The pagination loop\<close>

subsection \<open>One pass\<close>

lemma conn_close_fields [simp]:
  "committed (conn_close s) = committed s" "fetches (conn_close s) = fetches s"
  "events (conn_close s) = events s @ [Db Close True]"
  by (simp_all add: conn_close_def log_event_def fetches_def)

lemma loop_entry_fields [simp]:
  "api_calls (loop_entry w cfg) = 0" "committed (loop_entry w cfg) = []"
  "pending (loop_entry w cfg) = []" "fetches (loop_entry w cfg) = 0"
  by (simp_all add: loop_entry_def fetches_def cleared_def)

lemma no_fault_ok: "db_fault w = no_fault \<Longrightarrow> storage_ok w n"
  by (simp add: storage_ok_def no_fault_def)

lemma bulk_insert_ok:
  assumes "storage_ok w (api_calls s)" and "pending s = committed s"
  shows "\<exists>s'. bulk_insert w rows tot s = (None, tot + length rows, s')
           \<and> api_calls s' = api_calls s
           \<and> committed s' = committed s @ rows \<and> pending s' = committed s'
           \<and> fetches s' = fetches s"
proof (cases "rows = []")
  case True
  then show ?thesis using assms by (simp add: bulk_insert_def)
next
  case False
  have a: "db_fault w (api_calls s) (InsertMany rows) = None"
    and b: "db_fault w (api_calls s) Commit = None"
    using assms(1) by (simp_all add: storage_ok_def)
  show ?thesis using False assms(2) a b
    by (simp add: bulk_insert_def db_call_def log_event_def fetches_def)
qed

lemma bulk_insert_any:
  "bulk_insert w rows tot s = (x, tot', s') \<Longrightarrow> pending s = committed s \<Longrightarrow>
     fetches s' = fetches s \<and> (x \<noteq> None \<longrightarrow> committed s' = committed s)"
  by (auto simp: bulk_insert_def db_call_def log_event_def fetches_def
      split: if_splits option.splits)

text \<open>A page that continues: its rows are committed and the loop goes on.\<close>

lemma loop_body_continues:
  assumes "api_reply w (api_calls s) (build_request cfg sd ed frn) = Inr p"
    and "continues p"
    and "storage_ok w (Suc (api_calls s))" and "pending s = committed s"
  shows "\<exists>n s'. loop_body w cfg sd ed frn tot s = (Inr (Some n), tot + length (rows_of p), s')
           \<and> api_calls s' = Suc (api_calls s)
           \<and> committed s' = committed s @ rows_of p \<and> pending s' = committed s'
           \<and> fetches s' = Suc (fetches s)"
proof -
  let ?s1 = "(log_event (Post (build_request cfg sd ed frn)) s)\<lparr>api_calls := Suc (api_calls s)\<rparr>"
  from assms(2) obtain data rows n where
    st: "raise_for_status p = None" and js: "json_body p = Some data" and tr: "truthy data"
    and fl: "flatten_page data = Inr rows" and hp: "handle_pagination p = Inr (Some n)"
    by (auto simp: continues_def page_ok_def non_empty_def split: option.splits sum.splits)
  have ro: "rows_of p = rows" using js tr fl by (simp add: rows_of_def)
  have "storage_ok w (api_calls ?s1)" "pending ?s1 = committed ?s1"
    using assms(3,4) by (simp_all add: log_event_def)
  from bulk_insert_ok[OF this, of rows tot] obtain s' where
    bi: "bulk_insert w rows tot ?s1 = (None, tot + length rows, s')"
    and s': "api_calls s' = api_calls ?s1" "committed s' = committed ?s1 @ rows"
      "pending s' = committed s'" "fetches s' = fetches ?s1"
    by blast
  have "loop_body w cfg sd ed frn tot s = (Inr (Some n), tot + length rows, s')"
    using assms(1) st js tr fl hp bi
    by (simp add: loop_body_def Let_def response_json_def)
  moreover have "fetches ?s1 = Suc (fetches s)" by (simp add: fetches_def log_event_def)
  ultimately show ?thesis using s' ro by (simp add: log_event_def)
qed

text \<open>A last page: empty, or without the next-cursor header.\<close>

lemma loop_body_last:
  assumes "api_reply w (api_calls s) (build_request cfg sd ed frn) = Inr p"
    and "page_ok p" and "json_body p = Some (JArr []) \<or> headers p ''X-Next-Row-Number'' = None"
    and "storage_ok w (Suc (api_calls s))" and "pending s = committed s"
  shows "\<exists>s'. loop_body w cfg sd ed frn tot s = (Inr None, tot + length (rows_of p), s')
           \<and> fetches s' = Suc (fetches s)"
proof -
  let ?s1 = "(log_event (Post (build_request cfg sd ed frn)) s)\<lparr>api_calls := Suc (api_calls s)\<rparr>"
  have f1: "fetches ?s1 = Suc (fetches s)" by (simp add: fetches_def log_event_def)
  from assms(2) obtain data where
    st: "raise_for_status p = None" and js: "json_body p = Some data"
    by (auto simp: page_ok_def split: option.splits)
  show ?thesis
  proof (cases "truthy data")
    case False
    then have "rows_of p = []" using js by (simp add: rows_of_def)
    then show ?thesis using assms(1) st js False f1
      by (simp add: loop_body_def Let_def response_json_def)
  next
    case True
    then obtain rows where fl: "flatten_page data = Inr rows"
      using assms(2) js by (auto simp: page_ok_def split: sum.splits)
    have ro: "rows_of p = rows" using js True fl by (simp add: rows_of_def)
    have hd: "headers p ''X-Next-Row-Number'' = None" using assms(3) js True by auto
    have "storage_ok w (api_calls ?s1)" "pending ?s1 = committed ?s1"
      using assms(4,5) by (simp_all add: log_event_def)
    from bulk_insert_ok[OF this, of rows tot] obtain s' where
      bi: "bulk_insert w rows tot ?s1 = (None, tot + length rows, s')"
      and s': "fetches s' = fetches ?s1"
      by blast
    have "loop_body w cfg sd ed frn tot s = (Inr None, tot + length rows, s')"
      using assms(1) st js True fl hd bi
      by (simp add: loop_body_def Let_def response_json_def handle_pagination_def)
    then show ?thesis using s' f1 ro by simp
  qed
qed

text \<open>A page that fails upstream or in storage: the pass raises and commits nothing.\<close>

lemma loop_body_fails:
  assumes "api_reply w (api_calls s) (build_request cfg sd ed frn) = r"
    and "upstream_error r \<or> storage_error w (Suc (api_calls s)) r"
    and "pending s = committed s"
  shows "\<exists>e tot' s'. loop_body w cfg sd ed frn tot s = (Inl e, tot', s')
           \<and> committed s' = committed s \<and> fetches s' = Suc (fetches s)"
proof -
  let ?s1 = "(log_event (Post (build_request cfg sd ed frn)) s)\<lparr>api_calls := Suc (api_calls s)\<rparr>"
  have f1: "fetches ?s1 = Suc (fetches s)" "committed ?s1 = committed s"
    by (simp_all add: fetches_def log_event_def)
  from assms(2) show ?thesis
  proof
    assume "upstream_error r"
    then show ?thesis using assms(1) f1
      by (auto simp: upstream_error_def loop_body_def Let_def response_json_def
          split: sum.splits option.splits)
  next
    assume se: "storage_error w (Suc (api_calls s)) r"
    then obtain p where r: "r = Inr p" and ok: "page_ok p" and ne: "rows_of p \<noteq> []"
      and flt: "db_fault w (Suc (api_calls s)) (InsertMany (rows_of p)) \<noteq> None
             \<or> db_fault w (Suc (api_calls s)) Commit \<noteq> None"
      by (auto simp: storage_error_def split: sum.splits)
    from ok ne obtain data where
      st: "raise_for_status p = None" and js: "json_body p = Some data" and tr: "truthy data"
      and fl: "flatten_page data = Inr (rows_of p)"
      by (auto simp: page_ok_def rows_of_def split: option.splits sum.splits if_splits)
    obtain x tot' s' where bi: "bulk_insert w (rows_of p) tot ?s1 = (x, tot', s')"
      by (metis prod_cases3)
    have "x \<noteq> None" using bi ne flt
      by (auto simp: bulk_insert_def db_call_def log_event_def split: option.splits)
    then obtain e where x: "x = Some e" by auto
    have "pending ?s1 = committed ?s1" using assms(3) by (simp add: log_event_def)
    from bulk_insert_any[OF bi this] x have "fetches s' = fetches ?s1" "committed s' = committed ?s1"
      by simp_all
    moreover have "loop_body w cfg sd ed frn tot s = (Inl e, tot', s')"
      using assms(1) r st js tr fl bi x
      by (simp add: loop_body_def Let_def response_json_def)
    ultimately show ?thesis using f1 by simp
  qed
qed

text \<open>A non-empty page whose next-cursor header is not empty and not an integer.\<close>

lemma loop_body_bad_cursor:
  assumes "api_reply w (api_calls s) (build_request cfg sd ed frn) = Inr p"
    and "non_empty p" and "headers p ''X-Next-Row-Number'' = Some h" and "h \<noteq> []"
    and "py_int h = None" and "pending s = committed s"
  shows "\<exists>e tot' s'. loop_body w cfg sd ed frn tot s = (Inl e, tot', s')
           \<and> fetches s' = Suc (fetches s)"
proof -
  let ?s1 = "(log_event (Post (build_request cfg sd ed frn)) s)\<lparr>api_calls := Suc (api_calls s)\<rparr>"
  have f1: "fetches ?s1 = Suc (fetches s)" "pending ?s1 = committed ?s1"
    using assms(6) by (simp_all add: fetches_def log_event_def)
  from assms(2) obtain data where js: "json_body p = Some data" and tr: "truthy data"
    by (auto simp: non_empty_def split: option.splits)
  have hp: "\<exists>e. handle_pagination p = Inl e"
    using assms(3,4,5) by (simp add: handle_pagination_def)
  show ?thesis
  proof (cases "raise_for_status p")
    case (Some e)
    then show ?thesis using assms(1) f1 by (simp add: loop_body_def Let_def)
  next
    case None
    show ?thesis
    proof (cases "flatten_page data")
      case (Inl e)
      then show ?thesis using assms(1) None js tr f1
        by (simp add: loop_body_def Let_def response_json_def)
    next
      case (Inr rows)
      obtain x tot' s' where bi: "bulk_insert w rows tot ?s1 = (x, tot', s')"
        by (metis prod_cases3)
      from bulk_insert_any[OF bi f1(2)] have "fetches s' = fetches ?s1" by simp
      then show ?thesis using assms(1) None js tr Inr bi hp f1
        by (cases x) (auto simp: loop_body_def Let_def response_json_def)
    qed
  qed
qed

subsection \<open>Sequences of pages\<close>

text \<open>
  Pages that continue, served one after the other from the state \<open>s\<close>: the loop commits
  the rows of each and stands before the next fetch.
\<close>

lemma loop_continuing_pages:
  assumes "\<forall>i < length ps. serves w (api_calls s + i) (Inr (ps ! i))"
    and "\<forall>q \<in> set ps. continues q"
    and "\<forall>i < length ps. storage_ok w (Suc (api_calls s + i))"
    and "pending s = committed s"
  shows "\<exists>frn' s'. pagination_loop w cfg sd ed frn tot s
            = pagination_loop w cfg sd ed frn' (tot + sum_list (map (\<lambda>p. length (rows_of p)) ps)) s'
           \<and> api_calls s' = api_calls s + length ps
           \<and> committed s' = committed s @ concat (map rows_of ps)
           \<and> pending s' = committed s'
           \<and> fetches s' = fetches s + length ps"
  using assms
proof (induction ps arbitrary: frn tot s)
  case Nil
  then show ?case by auto
next
  case (Cons p ps)
  have p0: "api_reply w (api_calls s) (build_request cfg sd ed frn) = Inr p"
    using Cons.prems(1) by (auto simp: serves_def)
  have c0: "continues p" using Cons.prems(2) by simp
  have d0: "storage_ok w (Suc (api_calls s))" using Cons.prems(3) by auto
  from loop_body_continues[OF p0 c0 d0 Cons.prems(4), of tot] obtain n s1 where
    lb: "loop_body w cfg sd ed frn tot s = (Inr (Some n), tot + length (rows_of p), s1)"
    and s1: "api_calls s1 = Suc (api_calls s)" "committed s1 = committed s @ rows_of p"
      "pending s1 = committed s1" "fetches s1 = Suc (fetches s)"
    by blast
  have step: "pagination_loop w cfg sd ed frn tot s
      = pagination_loop w cfg sd ed n (tot + length (rows_of p)) s1"
    by (subst pagination_loop.simps) (simp add: lb)
  have a1: "\<forall>i < length ps. serves w (api_calls s1 + i) (Inr (ps ! i))"
  proof (intro allI impI)
    fix i assume "i < length ps"
    then have "serves w (api_calls s + Suc i) (Inr ((p # ps) ! Suc i))"
      using Cons.prems(1) by (metis Suc_less_eq length_Cons)
    then show "serves w (api_calls s1 + i) (Inr (ps ! i))" using s1(1) by simp
  qed
  have a2: "\<forall>q \<in> set ps. continues q" using Cons.prems(2) by simp
  have a3: "\<forall>i < length ps. storage_ok w (Suc (api_calls s1 + i))"
  proof (intro allI impI)
    fix i assume "i < length ps"
    then have "storage_ok w (Suc (api_calls s + Suc i))"
      using Cons.prems(3) by (metis Suc_less_eq length_Cons)
    then show "storage_ok w (Suc (api_calls s1 + i))" using s1(1) by simp
  qed
  from Cons.IH[OF a1 a2 a3 s1(3), of n "tot + length (rows_of p)"] obtain frn' s' where
    ih: "pagination_loop w cfg sd ed n (tot + length (rows_of p)) s1
          = pagination_loop w cfg sd ed frn'
              (tot + length (rows_of p) + sum_list (map (\<lambda>p. length (rows_of p)) ps)) s'"
    and s': "api_calls s' = api_calls s1 + length ps"
      "committed s' = committed s1 @ concat (map rows_of ps)"
      "pending s' = committed s'" "fetches s' = fetches s1 + length ps"
    by blast
  show ?case
    using step ih s' s1 by (intro exI[of _ frn'] exI[of _ s']) (simp add: add.assoc)
qed

text \<open>With configuration, dates and the clear in order, a run is the loop and then the close.\<close>

lemma ingest_reaches_loop:
  assumes "load_config (environ w) = Inr cfg" and "read_dates w = Inr (sd, ed)"
    and "storage_ok w 0"
  shows "ingest_toggl_data w =
           map_option (\<lambda>(r, s'). (Inr (reply_of r), conn_close s'))
             (pagination_loop w cfg sd ed 1 0 (loop_entry w cfg))"
proof -
  have tb: "try_block w cfg sd ed (log_event GetJson (initial w)) =
        map_option (\<lambda>(r, s'). (r, True, s')) (pagination_loop w cfg sd ed 1 0 (loop_entry w cfg))"
    using assms(3)
    by (simp add: try_block_def db_call_def storage_ok_def log_event_def initial_def
        loop_entry_def cleared_def)
  show ?thesis
    using assms(1,2)
    by (simp add: ingest_toggl_data_def tb Let_def option.map_comp comp_def
        case_prod_unfold finally_close_def)
qed

lemma run_of_pages:
  assumes "load_config (environ w) = Inr cfg" and "read_dates w = Inr (sd, ed)"
    and "\<forall>n \<le> length ps. storage_ok w n"
    and "\<forall>i < length ps. serves w i (Inr (ps ! i))"
    and "\<forall>q \<in> set ps. continues q"
  shows "\<exists>frn s'. ingest_toggl_data w =
             map_option (\<lambda>(r, s''). (Inr (reply_of r), conn_close s''))
               (pagination_loop w cfg sd ed frn (sum_list (map (\<lambda>q. length (rows_of q)) ps)) s')
           \<and> api_calls s' = length ps \<and> committed s' = concat (map rows_of ps)
           \<and> pending s' = committed s' \<and> fetches s' = length ps"
proof -
  have s0: "storage_ok w 0" using assms(3) by simp
  have a: "\<forall>i < length ps. serves w (api_calls (loop_entry w cfg) + i) (Inr (ps ! i))"
    using assms(4) by simp
  have b: "\<forall>i < length ps. storage_ok w (Suc (api_calls (loop_entry w cfg) + i))"
    using assms(3) by simp
  have c: "pending (loop_entry w cfg) = committed (loop_entry w cfg)" by simp
  from loop_continuing_pages[OF a assms(5) b c, of cfg sd ed 1 0] obtain frn s' where
    lp: "pagination_loop w cfg sd ed 1 0 (loop_entry w cfg)
       = pagination_loop w cfg sd ed frn (0 + sum_list (map (\<lambda>q. length (rows_of q)) ps)) s'"
    and s': "api_calls s' = api_calls (loop_entry w cfg) + length ps"
    "committed s' = committed (loop_entry w cfg) @ concat (map rows_of ps)"
    "pending s' = committed s'" "fetches s' = fetches (loop_entry w cfg) + length ps"
    by blast
  have "ingest_toggl_data w =
          map_option (\<lambda>(r, s''). (Inr (reply_of r), conn_close s''))
            (pagination_loop w cfg sd ed frn (sum_list (map (\<lambda>q. length (rows_of q)) ps)) s')"
    using ingest_reaches_loop[OF assms(1,2) s0] lp by simp
  then show ?thesis using s' by (intro exI[of _ frn] exI[of _ s']) simp
qed

subsection \<open>The pages of the concrete runs\<close>

lemma rows_page_one: "flatten_page (JArr [entry_a, entry_no_details, entry_a]) = Inr [row_a, row_a]"
  by (simp add: flatten_page_def flatten_entry_a flatten_entry_no_details)

lemma rows_page_two: "flatten_page (JArr [entry_a]) = Inr [row_a]"
  by (simp add: flatten_page_def flatten_entry_a)

lemma py_int_4: "py_int ''4'' = Some 4"
  by (simp add: py_int_def strip_def is_space_def parse_unsigned_def is_digit_def digit_value_def)

lemma py_int_abc: "py_int ''abc'' = None"
  by (simp add: py_int_def strip_def is_space_def parse_unsigned_def is_digit_def)

lemma page_one_continues: "continues page_one" "rows_of page_one = [row_a, row_a]"
  by (simp_all add: continues_def page_ok_def non_empty_def rows_of_def page_one_def
      raise_for_status_def handle_pagination_def rows_page_one py_int_4)

lemma page_two_last: "page_ok page_two" "headers page_two ''X-Next-Row-Number'' = None"
  "rows_of page_two = [row_a]"
  by (simp_all add: page_ok_def rows_of_def page_two_def raise_for_status_def rows_page_two)

lemma world_of_start:
  "load_config (environ (world_of api)) = Inr cfg_ok"
  "read_dates (world_of api) = Inr (JStr ''2024-01-01'', JStr ''2024-01-07'')"
  "storage_ok (world_of api) n"
  by (simp_all add: world_of_def env_ok_config body_ok_dates no_fault_ok)

subsection \<open>Termination of the pagination\<close>

text \<open>
  Claim C5. Let the API serve a finite sequence of pages, each a successful response whose
  entries flatten, every page before the last non-empty and carrying an integer next-cursor
  header, and let the storage calls succeed. If the last page carries no next-cursor header,
  or if it contains zero entries (whatever its header), the run ends with the success
  response, has made exactly as many fetches as there are pages, and reports as total the
  sum over the pages of the number of flattened rows.
\<close>

theorem pagination_fetches_and_total:
  assumes "load_config (environ w) = Inr cfg" and "read_dates w = Inr (sd, ed)"
    and "\<forall>n. storage_ok w n"
    and "\<forall>i < length (ps @ [p]). serves w i (Inr ((ps @ [p]) ! i))"
    and "\<forall>q \<in> set ps. continues q"
    and "page_ok p"
    and "json_body p = Some (JArr []) \<or> headers p ''X-Next-Row-Number'' = None"
  shows "\<exists>s. ingest_toggl_data w =
             Some (Inr \<lparr>status_code = 200,
                        body = Success_Loaded (sum_list (map (\<lambda>q. length (rows_of q)) (ps @ [p])))\<rparr>, s)
           \<and> fetches s = length (ps @ [p])"
proof -
  let ?tot = "sum_list (map (\<lambda>q. length (rows_of q)) ps)"
  have a: "\<forall>n \<le> length ps. storage_ok w n" using assms(3) by simp
  have b: "\<forall>i < length ps. serves w i (Inr (ps ! i))"
  proof (intro allI impI)
    fix i assume i: "i < length ps"
    then have "serves w i (Inr ((ps @ [p]) ! i))" using assms(4) by simp
    then show "serves w i (Inr (ps ! i))" using i by (simp add: nth_append)
  qed
  from run_of_pages[OF assms(1,2) a b assms(5)] obtain frn s' where
    run: "ingest_toggl_data w =
             map_option (\<lambda>(r, s''). (Inr (reply_of r), conn_close s''))
               (pagination_loop w cfg sd ed frn ?tot s')"
    and s': "api_calls s' = length ps" "pending s' = committed s'" "fetches s' = length ps"
    by blast
  have "length ps < length (ps @ [p])" by simp
  with assms(4) have "serves w (length ps) (Inr ((ps @ [p]) ! length ps))" by blast
  then have p: "api_reply w (api_calls s') (build_request cfg sd ed frn) = Inr p"
    using s'(1) by (simp add: serves_def)
  have ok: "storage_ok w (Suc (api_calls s'))" using assms(3) by simp
  from loop_body_last[OF p assms(6,7) ok s'(2), of ?tot] obtain s2 where
    lb: "loop_body w cfg sd ed frn ?tot s' = (Inr None, ?tot + length (rows_of p), s2)"
    and f2: "fetches s2 = Suc (fetches s')"
    by blast
  have "pagination_loop w cfg sd ed frn ?tot s' = Some (Inr (?tot + length (rows_of p)), s2)"
    by (subst pagination_loop.simps) (simp add: lb)
  then show ?thesis using run f2 s'(3) by simp
qed

theorem pagination_fetches_and_total_witness:
  "(\<exists>s. ingest_toggl_data world_two_pages =
          Some (Inr \<lparr>status_code = 200, body = Success_Loaded 3\<rparr>, s) \<and> fetches s = 2)
   \<and> (\<exists>s. ingest_toggl_data world_then_empty =
          Some (Inr \<lparr>status_code = 200, body = Success_Loaded 2\<rparr>, s) \<and> fetches s = 2)"
proof -
  have ct: "\<forall>q \<in> set [page_one]. continues q" by (simp add: page_one_continues)
  have st: "\<forall>n. storage_ok world_two_pages n"
    by (simp add: world_two_pages_def world_of_start)
  have sv: "\<forall>i < length ([page_one] @ [page_two]).
              serves world_two_pages i (Inr (([page_one] @ [page_two]) ! i))"
    by (simp add: serves_def world_two_pages_def world_of_def two_pages_api_def nth_Cons'
        less_Suc_eq)
  have hd: "json_body page_two = Some (JArr []) \<or> headers page_two ''X-Next-Row-Number'' = None"
    by (simp add: page_two_last)
  have st': "\<forall>n. storage_ok world_then_empty n"
    by (simp add: world_then_empty_def world_of_start)
  have sv': "\<forall>i < length ([page_one] @ [page_empty_bad_cursor]).
              serves world_then_empty i (Inr (([page_one] @ [page_empty_bad_cursor]) ! i))"
    by (simp add: serves_def world_then_empty_def world_of_def then_empty_api_def nth_Cons'
        less_Suc_eq)
  have ok': "page_ok page_empty_bad_cursor" and r': "rows_of page_empty_bad_cursor = []"
    by (simp_all add: page_ok_def rows_of_def page_empty_bad_cursor_def raise_for_status_def)
  have hd': "json_body page_empty_bad_cursor = Some (JArr [])
             \<or> headers page_empty_bad_cursor ''X-Next-Row-Number'' = None"
    by (simp add: page_empty_bad_cursor_def)
  from pagination_fetches_and_total
    [OF world_of_start(1,2)[of two_pages_api, folded world_two_pages_def] st sv ct
      page_two_last(1) hd]
    pagination_fetches_and_total
    [OF world_of_start(1,2)[of then_empty_api, folded world_then_empty_def] st' sv' ct ok' hd']
  show ?thesis
    by (simp add: page_one_continues page_two_last r' numeral_2_eq_2 numeral_3_eq_3)
qed

subsection \<open>A failing page\<close>

text \<open>
  Claim C7. Let pages 1 to N-1 be fetched and committed (each continues, and the storage
  calls up to there succeed), and let page N fail, by an upstream error (the fetch raises,
  or returns an error status or a body that does not decode) or by a storage error (the
  insert or the commit of its rows raises). Then the run returns status 500 with the error text, and the staging table holds
  exactly the rows of pages 1 to N-1, in order: nothing is rolled back or deleted.
\<close>

theorem failed_page_keeps_earlier_rows:
  assumes "load_config (environ w) = Inr cfg" and "read_dates w = Inr (sd, ed)"
    and "\<forall>n \<le> length ps. storage_ok w n"
    and "\<forall>i < length ps. serves w i (Inr (ps ! i))"
    and "\<forall>q \<in> set ps. continues q"
    and "serves w (length ps) r"
    and "upstream_error r \<or> storage_error w (Suc (length ps)) r"
  shows "\<exists>e s. ingest_toggl_data w = Some (Inr \<lparr>status_code = 500, body = Error e\<rparr>, s)
           \<and> committed s = concat (map rows_of ps)"
proof -
  let ?tot = "sum_list (map (\<lambda>q. length (rows_of q)) ps)"
  from run_of_pages[OF assms(1-5)] obtain frn s' where
    run: "ingest_toggl_data w =
             map_option (\<lambda>(r, s''). (Inr (reply_of r), conn_close s''))
               (pagination_loop w cfg sd ed frn ?tot s')"
    and s': "api_calls s' = length ps" "pending s' = committed s'"
      "committed s' = concat (map rows_of ps)"
    by blast
  have r: "api_reply w (api_calls s') (build_request cfg sd ed frn) = r"
    using assms(6) s'(1) by (simp add: serves_def)
  have f: "upstream_error r \<or> storage_error w (Suc (api_calls s')) r" using assms(7) s'(1) by simp
  from loop_body_fails[OF r f s'(2), of ?tot] obtain e tot' s2 where
    lb: "loop_body w cfg sd ed frn ?tot s' = (Inl e, tot', s2)"
    and c2: "committed s2 = committed s'"
    by blast
  have "pagination_loop w cfg sd ed frn ?tot s' = Some (Inl e, s2)"
    by (subst pagination_loop.simps) (simp add: lb)
  then show ?thesis using run c2 s'(3) by simp
qed

theorem failed_page_keeps_earlier_rows_witness:
  "(\<exists>e s. ingest_toggl_data world_page_two_fails =
            Some (Inr \<lparr>status_code = 500, body = Error e\<rparr>, s) \<and> committed s = [row_a, row_a])
   \<and> (\<exists>e s. ingest_toggl_data world_commit_fails =
            Some (Inr \<lparr>status_code = 500, body = Error e\<rparr>, s) \<and> committed s = [row_a, row_a])"
proof -
  have ct: "\<forall>q \<in> set [page_one]. continues q" by (simp add: page_one_continues)
  have st: "\<forall>n \<le> length [page_one]. storage_ok world_page_two_fails n"
    by (simp add: world_page_two_fails_def world_of_start)
  have sv: "\<forall>i < length [page_one]. serves world_page_two_fails i (Inr ([page_one] ! i))"
    by (simp add: serves_def world_page_two_fails_def world_of_def two_then_error_api_def)
  have fl: "serves world_page_two_fails (length [page_one]) (Inr page_error)"
    by (simp add: serves_def world_page_two_fails_def world_of_def two_then_error_api_def)
  have er: "upstream_error (Inr page_error)
            \<or> storage_error world_page_two_fails (Suc (length [page_one])) (Inr page_error)"
    by (simp add: upstream_error_def raise_for_status_def page_error_def)
  have cfg': "load_config (environ world_commit_fails) = Inr cfg_ok"
    by (simp add: world_commit_fails_def env_ok_config)
  have dates': "read_dates world_commit_fails = Inr (JStr ''2024-01-01'', JStr ''2024-01-07'')"
    by (rule body_ok_dates) (simp add: world_commit_fails_def)
  have st': "\<forall>n \<le> length [page_one]. storage_ok world_commit_fails n"
    by (simp add: storage_ok_def world_commit_fails_def commit_fault_def)
  have sv': "\<forall>i < length [page_one]. serves world_commit_fails i (Inr ([page_one] ! i))"
    by (simp add: serves_def world_commit_fails_def two_pages_api_def)
  have fl': "serves world_commit_fails (length [page_one]) (Inr page_two)"
    by (simp add: serves_def world_commit_fails_def two_pages_api_def)
  have er': "upstream_error (Inr page_two)
            \<or> storage_error world_commit_fails (Suc (length [page_one])) (Inr page_two)"
    by (simp add: storage_error_def page_two_last world_commit_fails_def commit_fault_def)
  from failed_page_keeps_earlier_rows
    [OF world_of_start(1,2)[of two_then_error_api, folded world_page_two_fails_def] st sv ct fl er]
    failed_page_keeps_earlier_rows[OF cfg' dates' st' sv' ct fl' er']
  show ?thesis by (simp add: page_one_continues)
qed

subsection \<open>The next-cursor header\<close>

text \<open>
  Claim C10, as stated: every page whose next-cursor header is present and not an integer
  makes the run end with status 500. It fails for an empty page, where the loop breaks
  before the header is read, and for a header whose value is the empty string, which the
  test \<^verbatim>\<open>if next_row\<close> takes for an absent one: both runs end with status 200.
\<close>

theorem bad_cursor_counterexample:
  "headers page_empty_bad_cursor ''X-Next-Row-Number'' = Some ''abc'' \<and> py_int ''abc'' = None
   \<and> map_option fst (ingest_toggl_data world_empty_bad_cursor)
       = Some (Inr \<lparr>status_code = 200, body = Success_Loaded 0\<rparr>)
   \<and> headers page_blank_cursor ''X-Next-Row-Number'' = Some [] \<and> py_int [] = None
   \<and> map_option fst (ingest_toggl_data world_blank_cursor)
       = Some (Inr \<lparr>status_code = 200, body = Success_Loaded 1\<rparr>)"
proof -
  let ?sd = "JStr ''2024-01-01''" and ?ed = "JStr ''2024-01-07''"
  have "\<exists>s. pagination_loop (world_of empty_bad_cursor_api) cfg_ok ?sd ?ed 1 0
          (loop_entry (world_of empty_bad_cursor_api) cfg_ok) = Some (Inr 0, s)"
    by (subst pagination_loop.simps)
      (simp add: loop_body_def Let_def world_of_def empty_bad_cursor_api_def
        page_empty_bad_cursor_def raise_for_status_def response_json_def)
  then have r1: "map_option fst (ingest_toggl_data world_empty_bad_cursor)
       = Some (Inr \<lparr>status_code = 200, body = Success_Loaded 0\<rparr>)"
    by (auto simp: world_empty_bad_cursor_def ingest_reaches_loop[OF world_of_start])
  have "\<exists>s. pagination_loop (world_of blank_cursor_api) cfg_ok ?sd ?ed 1 0
          (loop_entry (world_of blank_cursor_api) cfg_ok) = Some (Inr 1, s)"
    by (subst pagination_loop.simps)
      (simp add: loop_body_def Let_def world_of_def blank_cursor_api_def
        page_blank_cursor_def raise_for_status_def response_json_def rows_page_two
        bulk_insert_def db_call_def no_fault_def log_event_def handle_pagination_def)
  then have r2: "map_option fst (ingest_toggl_data world_blank_cursor)
       = Some (Inr \<lparr>status_code = 200, body = Success_Loaded 1\<rparr>)"
    by (auto simp: world_blank_cursor_def ingest_reaches_loop[OF world_of_start])
  have "py_int [] = None" by (simp add: py_int_def strip_def)
  then show ?thesis using r1 r2 py_int_abc
    by (simp add: page_empty_bad_cursor_def page_blank_cursor_def)
qed

text \<open>
  Claim C10, amended. The header value is parsed as a decimal integer before the next
  fetch: when a non-empty page (reached after pages that continue) carries a next-cursor
  header whose value is not empty and not an integer, the run returns status 500 with the
  error text, and that page's fetch is the last one.
\<close>

theorem bad_cursor_aborts:
  assumes "load_config (environ w) = Inr cfg" and "read_dates w = Inr (sd, ed)"
    and "\<forall>n \<le> length ps. storage_ok w n"
    and "\<forall>i < length ps. serves w i (Inr (ps ! i))"
    and "\<forall>q \<in> set ps. continues q"
    and "serves w (length ps) (Inr p)"
    and "non_empty p"
    and "headers p ''X-Next-Row-Number'' = Some h" and "h \<noteq> []" and "py_int h = None"
  shows "\<exists>e s. ingest_toggl_data w = Some (Inr \<lparr>status_code = 500, body = Error e\<rparr>, s)
           \<and> fetches s = Suc (length ps)"
proof -
  let ?tot = "sum_list (map (\<lambda>q. length (rows_of q)) ps)"
  from run_of_pages[OF assms(1-5)] obtain frn s' where
    run: "ingest_toggl_data w =
             map_option (\<lambda>(r, s''). (Inr (reply_of r), conn_close s''))
               (pagination_loop w cfg sd ed frn ?tot s')"
    and s': "api_calls s' = length ps" "pending s' = committed s'" "fetches s' = length ps"
    by blast
  have p: "api_reply w (api_calls s') (build_request cfg sd ed frn) = Inr p"
    using assms(6) s'(1) by (simp add: serves_def)
  from loop_body_bad_cursor[OF p assms(7-10) s'(2), of ?tot] obtain e tot' s2 where
    lb: "loop_body w cfg sd ed frn ?tot s' = (Inl e, tot', s2)"
    and f2: "fetches s2 = Suc (fetches s')"
    by blast
  have "pagination_loop w cfg sd ed frn ?tot s' = Some (Inl e, s2)"
    by (subst pagination_loop.simps) (simp add: lb)
  then show ?thesis using run f2 s'(3) by simp
qed

theorem bad_cursor_aborts_witness:
  "\<exists>e s. ingest_toggl_data world_bad_cursor =
            Some (Inr \<lparr>status_code = 500, body = Error e\<rparr>, s) \<and> fetches s = 1"
proof -
  have st: "\<forall>n \<le> length ([] :: http_response list). storage_ok world_bad_cursor n"
    by (simp add: world_bad_cursor_def world_of_start)
  have sv: "\<forall>i < length ([] :: http_response list). serves world_bad_cursor i (Inr ([] ! i))"
    by simp
  have ct: "\<forall>q \<in> set ([] :: http_response list). continues q" by simp
  have pg: "serves world_bad_cursor (length ([] :: http_response list)) (Inr page_bad_cursor)"
    by (simp add: serves_def world_bad_cursor_def world_of_def bad_cursor_api_def)
  have ne: "non_empty page_bad_cursor" by (simp add: non_empty_def page_bad_cursor_def)
  have hd: "headers page_bad_cursor ''X-Next-Row-Number'' = Some ''abc''"
    by (simp add: page_bad_cursor_def)
  have nn: "''abc'' \<noteq> []" by simp
  from bad_cursor_aborts
    [OF world_of_start(1,2)[of bad_cursor_api, folded world_bad_cursor_def] st sv ct pg ne hd nn
      py_int_abc]
  show ?thesis by simp
qed

section \<open>Traces of complete runs\<close>

subsection \<open>What the loop adds to the trace\<close>

lemma loop_events_exclude:
  assumes "list_all loop_event es"
  shows "filter is_Close es = []" "filter is_Truncate es = []" "Db (InsertMany []) b \<notin> set es"
proof -
  have "\<not> is_Close e \<and> \<not> is_Truncate e \<and> e \<noteq> Db (InsertMany []) b" if "loop_event e" for e
    using that by (cases e rule: loop_event.cases) auto
  with assms show "filter is_Close es = []" "filter is_Truncate es = []"
    "Db (InsertMany []) b \<notin> set es"
    by (auto simp: list_all_iff filter_empty_conv)
qed

lemma bulk_insert_events:
  "bulk_insert w rows tot s = (x, tot', s') \<Longrightarrow>
     \<exists>es. events s' = events s @ es \<and> list_all loop_event es"
  by (auto simp: bulk_insert_def db_call_def log_event_def split: if_splits option.splits)

lemma loop_body_events:
  assumes "loop_body w cfg sd ed frn tot s = (r, tot', s')"
  shows "\<exists>es. events s' = events s @ es \<and> list_all loop_event es"
proof -
  let ?req = "build_request cfg sd ed frn"
  let ?s1 = "(log_event (Post ?req) s)\<lparr>api_calls := Suc (api_calls s)\<rparr>"
  let ?G = "\<exists>es. events s' = events s @ es \<and> list_all loop_event es"
  have e1: "events ?s1 = events s @ [Post ?req]" by (simp add: log_event_def)
  have base: "s' = ?s1 \<Longrightarrow> ?G" using e1 by simp
  have ins: "bulk_insert w rows tot ?s1 = (x, t, s') \<Longrightarrow> ?G" for rows x t
  proof -
    assume "bulk_insert w rows tot ?s1 = (x, t, s')"
    from bulk_insert_events[OF this] obtain es where
      "events s' = events ?s1 @ es" "list_all loop_event es" by blast
    then have "events s' = events s @ (Post ?req # es)" "list_all loop_event (Post ?req # es)"
      using e1 by simp_all
    then show ?G by blast
  qed
  show ?thesis
    using assms
    apply (simp add: loop_body_def Let_def split: sum.splits option.splits if_splits prod.splits)
    using base ins by blast+
qed

text \<open>By induction on the unfoldings of the loop, for every run of it that ends.\<close>

lemma pagination_loop_events:
  assumes "pagination_loop w cfg sd ed frn tot s = Some y"
  shows "\<exists>es. events (snd y) = events s @ es \<and> list_all loop_event es"
proof (rule pagination_loop.raw_induct
    [where P = "\<lambda>w cfg sd ed frn tot s y. \<exists>es. events (snd y) = events s @ es \<and> list_all loop_event es",
      OF _ assms])
  fix loop w cfg sd ed frn tot s and y :: "(exn + nat) \<times> state"
  assume IH: "\<And>w cfg sd ed frn tot s y. loop w cfg sd ed frn tot s = Some y \<Longrightarrow>
                \<exists>es. events (snd y) = events s @ es \<and> list_all loop_event es"
    and unfolded: "(case loop_body w cfg sd ed frn tot s of
                  (Inl e, tot', s') \<Rightarrow> Some (Inl e, s')
                | (Inr None, tot', s') \<Rightarrow> Some (Inr tot', s')
                | (Inr (Some n), tot', s') \<Rightarrow> loop w cfg sd ed n tot' s') = Some y"
  obtain r tot' s' where lb: "loop_body w cfg sd ed frn tot s = (r, tot', s')"
    by (metis prod_cases3)
  from loop_body_events[OF lb] obtain es where
    es: "events s' = events s @ es" "list_all loop_event es" by blast
  show "\<exists>es. events (snd y) = events s @ es \<and> list_all loop_event es"
  proof (cases r)
    case (Inl e)
    then show ?thesis using unfolded lb es by auto
  next
    case (Inr nxt)
    show ?thesis
    proof (cases nxt)
      case None
      then show ?thesis using unfolded lb es Inr by auto
    next
      case (Some n)
      then have "loop w cfg sd ed n tot' s' = Some y" using unfolded lb Inr by simp
      from IH[OF this] obtain es' where
        "events (snd y) = events s' @ es'" "list_all loop_event es'" by blast
      then have "events (snd y) = events s @ (es @ es')" "list_all loop_event (es @ es')"
        using es by simp_all
      then show ?thesis by blast
    qed
  qed
qed

subsection \<open>The shapes of a run's trace\<close>

lemma try_block_trace:
  assumes "try_block w cfg sd ed (log_event GetJson (initial w)) = Some (r, conn, s')"
  shows "(\<not> conn \<and> events s' = [GetJson, Db (Connect (SQL_CONN_STRING cfg)) False])
       \<or> (conn \<and> events s' = [GetJson, Db (Connect (SQL_CONN_STRING cfg)) True, Db Cursor False])
       \<or> (conn \<and> events s' = [GetJson, Db (Connect (SQL_CONN_STRING cfg)) True, Db Cursor True,
                                Db Truncate False])
       \<or> (conn \<and> events s' = [GetJson, Db (Connect (SQL_CONN_STRING cfg)) True, Db Cursor True,
                                Db Truncate True, Db Commit False])
       \<or> (conn \<and> (\<exists>es. events s' = cleared (SQL_CONN_STRING cfg) @ es \<and> list_all loop_event es))"
proof -
  let ?cs = "SQL_CONN_STRING cfg"
  note defs = try_block_def db_call_def log_event_def initial_def
  show ?thesis
  proof (cases "db_fault w 0 (Connect ?cs)")
    case (Some msg)
    then show ?thesis using assms by (auto simp: defs)
  next
    case c1: None
    show ?thesis
    proof (cases "db_fault w 0 Cursor")
      case (Some msg)
      then show ?thesis using assms c1 by (auto simp: defs)
    next
      case c2: None
      show ?thesis
      proof (cases "db_fault w 0 Truncate")
        case (Some msg)
        then show ?thesis using assms c1 c2 by (auto simp: defs)
      next
        case c3: None
        show ?thesis
        proof (cases "db_fault w 0 Commit")
          case (Some msg)
          then show ?thesis using assms c1 c2 c3 by (auto simp: defs)
        next
          case c4: None
          from assms c1 c2 c3 c4 have
            "map_option (\<lambda>(r, s'). (r, True, s')) (pagination_loop w cfg sd ed 1 0 (loop_entry w cfg))
               = Some (r, conn, s')"
            by (simp add: defs loop_entry_def cleared_def)
          then have lp: "pagination_loop w cfg sd ed 1 0 (loop_entry w cfg) = Some (r, s')"
            and conn: "conn"
            by auto
          from pagination_loop_events[OF lp] obtain es where
            "events s' = events (loop_entry w cfg) @ es" "list_all loop_event es" by auto
          then show ?thesis using conn by (simp add: loop_entry_def)
        qed
      qed
    qed
  qed
qed

lemma ingest_trace:
  assumes "ingest_toggl_data w = Some (out, s)"
  shows "events s = [] \<or> events s = [GetJson]
       \<or> (\<exists>cs. events s = [GetJson, Db (Connect cs) False])
       \<or> (\<exists>cs reply. out = Inr reply \<and>
            (events s = [GetJson, Db (Connect cs) True, Db Cursor False, Db Close True]
           \<or> events s = [GetJson, Db (Connect cs) True, Db Cursor True, Db Truncate False,
                          Db Close True]
           \<or> events s = [GetJson, Db (Connect cs) True, Db Cursor True, Db Truncate True,
                          Db Commit False, Db Close True]
           \<or> (\<exists>es. events s = cleared cs @ es @ [Db Close True] \<and> list_all loop_event es)))"
proof (cases "load_config (environ w)")
  case (Inl e)
  then show ?thesis using assms by (auto simp: ingest_toggl_data_def initial_def)
next
  case (Inr cfg)
  show ?thesis
  proof (cases "read_dates w")
    case (Inl e)
    then show ?thesis using assms Inr
      by (auto simp: ingest_toggl_data_def initial_def log_event_def Let_def split: if_splits)
  next
    case dates: (Inr d)
    obtain sd ed where d: "d = (sd, ed)" by (cases d)
    from assms Inr dates d obtain r conn s' where
      tb: "try_block w cfg sd ed (log_event GetJson (initial w)) = Some (r, conn, s')"
      and out: "out = Inr (reply_of r)" and s: "s = finally_close conn s'"
      by (auto simp: ingest_toggl_data_def Let_def)
    from try_block_trace[OF tb] show ?thesis
      using out s by (auto simp: finally_close_def)
  qed
qed

subsection \<open>Three runs, step by step\<close>

lemma one_page_run:
  "ingest_toggl_data world_one_page =
     Some (Inr \<lparr>status_code = 200, body = Success_Loaded 1\<rparr>, one_page_final)"
proof -
  let ?sd = "JStr ''2024-01-01''" and ?ed = "JStr ''2024-01-07''"
  have "pagination_loop (world_of one_page_api) cfg_ok ?sd ?ed 1 0
          (loop_entry (world_of one_page_api) cfg_ok)
        = Some (Inr 1,
            \<lparr>events = cleared ''dsn'' @ [Post request_one, Db (InsertMany [row_a]) True, Db Commit True],
             api_calls = 1, committed = [row_a], pending = [row_a]\<rparr>)"
    by (subst pagination_loop.simps)
      (simp add: loop_body_def Let_def world_of_def one_page_api_def page_two_def
        raise_for_status_def response_json_def rows_page_two bulk_insert_def db_call_def
        no_fault_def log_event_def handle_pagination_def loop_entry_def cfg_ok_def
        build_request_def request_one_def)
  then show ?thesis
    by (simp add: world_one_page_def ingest_reaches_loop[OF world_of_start] conn_close_def
        log_event_def one_page_final_def)
qed

lemma fetch_raises_run:
  "ingest_toggl_data world_fetch_raises =
     Some (Inr \<lparr>status_code = 500, body = Error (RequestException ''connection reset'')\<rparr>,
           fetch_raises_final)"
proof -
  let ?sd = "JStr ''2024-01-01''" and ?ed = "JStr ''2024-01-07''"
  have "pagination_loop (world_of fetch_raises_api) cfg_ok ?sd ?ed 1 0
          (loop_entry (world_of fetch_raises_api) cfg_ok)
        = Some (Inl (RequestException ''connection reset''),
            \<lparr>events = cleared ''dsn'' @ [Post request_one],
             api_calls = 1, committed = [], pending = []\<rparr>)"
    by (subst pagination_loop.simps)
      (simp add: loop_body_def Let_def world_of_def fetch_raises_api_def
        log_event_def loop_entry_def cfg_ok_def build_request_def request_one_def)
  then show ?thesis
    by (simp add: world_fetch_raises_def ingest_reaches_loop[OF world_of_start] conn_close_def
        log_event_def fetch_raises_final_def)
qed

lemma no_dates_run:
  "ingest_toggl_data world_no_dates =
     Some (Inr \<lparr>status_code = 400,
                body = Invalid_Body (ValueError ''Missing start_date or end_date'')\<rparr>,
           no_dates_final)"
  by (simp add: ingest_toggl_data_def world_no_dates_def env_ok_config read_dates_def
      dict_get_def log_event_def initial_def no_dates_final_def)

subsection \<open>The clear of the staging table\<close>

text \<open>
  Claim C6, as stated: in every run the staging table is cleared exactly once. It fails for
  a run that the validation of the request ends: that run makes no database call at all.
\<close>

theorem staging_cleared_counterexample:
  "ingest_toggl_data world_no_dates =
     Some (Inr \<lparr>status_code = 400,
                body = Invalid_Body (ValueError ''Missing start_date or end_date'')\<rparr>,
           no_dates_final)
   \<and> clears no_dates_final = 0"
  using no_dates_run by (simp add: clears_def no_dates_final_def)

text \<open>
  Claim C6, amended. In every run that ends, the truncate is issued at most once. In every
  run that issues a fetch or a batch insert, the table has been cleared exactly once: the
  trace starts with connect, cursor, truncate and commit, all successful, and no truncate
  follows, so the clear precedes every fetch and every insert. No insert is issued for a
  page whose flattening produces zero rows.
\<close>

theorem staging_cleared_before_inserts:
  assumes "ingest_toggl_data w = Some (out, s)"
  shows "clears s \<le> 1
       \<and> ((\<exists>e \<in> set (events s). is_Post e \<or> is_Insert e) \<longrightarrow>
            (\<exists>cs es. events s = cleared cs @ es \<and> (\<forall>e \<in> set es. \<not> is_Truncate e)))
       \<and> (\<forall>b. Db (InsertMany []) b \<notin> set (events s))
       \<and> bulk_insert w [] tot s0 = (None, tot, s0)"
proof -
  have 4: "bulk_insert w [] tot s0 = (None, tot, s0)" by (simp add: bulk_insert_def)
  from ingest_trace[OF assms] consider
      "events s = []" | "events s = [GetJson]"
    | cs where "events s = [GetJson, Db (Connect cs) False]"
    | cs where "events s = [GetJson, Db (Connect cs) True, Db Cursor False, Db Close True]"
    | cs where "events s = [GetJson, Db (Connect cs) True, Db Cursor True, Db Truncate False,
                          Db Close True]"
    | cs where "events s = [GetJson, Db (Connect cs) True, Db Cursor True, Db Truncate True,
                          Db Commit False, Db Close True]"
    | cs es where "events s = cleared cs @ es @ [Db Close True]" "list_all loop_event es"
    by blast
  then show ?thesis
  proof cases
    case (7 cs es)
    have a: "filter is_Truncate es = []" and b: "\<And>b. Db (InsertMany []) b \<notin> set es"
      using loop_events_exclude[OF 7(2)] by auto
    have 1: "clears s \<le> 1" using 7(1) a by (simp add: clears_def cleared_def)
    have "\<forall>e \<in> set (es @ [Db Close True]). \<not> is_Truncate e"
      using a by (auto simp: filter_empty_conv)
    then have 2: "\<exists>cs es. events s = cleared cs @ es \<and> (\<forall>e \<in> set es. \<not> is_Truncate e)"
      using 7(1) by blast
    have 3: "\<forall>b. Db (InsertMany []) b \<notin> set (events s)" using 7(1) b by (auto simp: cleared_def)
    show ?thesis using 1 2 3 4 by blast
  qed (simp_all add: 4 clears_def)
qed

theorem staging_cleared_before_inserts_witness:
  "ingest_toggl_data world_one_page =
     Some (Inr \<lparr>status_code = 200, body = Success_Loaded 1\<rparr>, one_page_final)
   \<and> Db (InsertMany [row_a]) True \<in> set (events one_page_final)
   \<and> clears one_page_final \<le> 1
   \<and> (\<exists>cs es. events one_page_final = cleared cs @ es \<and> (\<forall>e \<in> set es. \<not> is_Truncate e))
   \<and> (\<forall>b. Db (InsertMany []) b \<notin> set (events one_page_final))"
proof -
  have m: "Db (InsertMany [row_a]) True \<in> set (events one_page_final)"
    by (simp add: one_page_final_def)
  then have h: "\<exists>e \<in> set (events one_page_final). is_Post e \<or> is_Insert e"
    by (rule bexI[rotated]) simp
  from staging_cleared_before_inserts[OF one_page_run] h one_page_run m
  show ?thesis by blast
qed

subsection \<open>The close of the session\<close>

text \<open>
  Claim C8. In every run that ends after the connection was opened, whether it ends in
  success, in an upstream failure or in a storage failure, the function returns a response,
  the session has been closed exactly once, and the close is the last call made.
\<close>

theorem session_closed_exactly_once:
  assumes "ingest_toggl_data w = Some (out, s)"
    and "Db (Connect cs) True \<in> set (events s)"
  shows "length (filter is_Close (events s)) = 1 \<and> last (events s) = Db Close True
         \<and> (\<exists>reply. out = Inr reply)"
  using ingest_trace[OF assms(1)] assms(2)
  by (auto simp: cleared_def loop_events_exclude)

theorem session_closed_exactly_once_witness:
  "ingest_toggl_data world_fetch_raises =
     Some (Inr \<lparr>status_code = 500, body = Error (RequestException ''connection reset'')\<rparr>,
           fetch_raises_final)
   \<and> Db (Connect ''dsn'') True \<in> set (events fetch_raises_final)
   \<and> length (filter is_Close (events fetch_raises_final)) = 1
   \<and> last (events fetch_raises_final) = Db Close True"
proof -
  have m: "Db (Connect ''dsn'') True \<in> set (events fetch_raises_final)"
    by (simp add: fetch_raises_final_def cleared_def)
  from session_closed_exactly_once[OF fetch_raises_run m] fetch_raises_run m
  show ?thesis by simp
qed

end
